theory Spec2Isabelle
  imports Main "HOL-Library.AList"
begin

section \<open>Symbolic expressions and the substitution operations of the algebra library\<close>

text \<open>
  \<^verbatim>\<open>devicebase.py\<close> manipulates equations through the computer-algebra library
  (\<^verbatim>\<open>import sympy as smp\<close>). The library is not part of the repository, so the three
  operations the device code calls on an expression are modelled here from the library's
  documented behaviour: \<^verbatim>\<open>expr.free_symbols\<close>, \<^verbatim>\<open>expr.subs(pairs)\<close> and,
  further down, \<^verbatim>\<open>expr.subs(pairs, simultaneous=True)\<close>.

  An expression is an uninterpreted tree: a numeric constant, a named symbol, or an
  operator applied to arguments (the library's \<^verbatim>\<open>func\<close> and \<^verbatim>\<open>args\<close>; an array of
  expressions is the operator \<open>Array\<close>). The automatic rewriting the library performs
  when it builds a term (\<^verbatim>\<open>x + 0\<close> to \<^verbatim>\<open>x\<close>) is not modelled, and numeric
  constants are integers.
\<close>

datatype expr =
    Num int
  | Sym string
  | App string "expr list"

definition Array :: "expr list \<Rightarrow> expr" where
  "Array xs = App ''Array'' xs"

text \<open>\<^verbatim>\<open>expr.free_symbols\<close>: the set of symbols occurring in the expression.\<close>

fun free_symbols :: "expr \<Rightarrow> string set" where
  "free_symbols (Num k) = {}"
| "free_symbols (Sym s) = {s}"
| "free_symbols (App f args) = (\<Union>a\<in>set args. free_symbols a)"

text \<open>
  \<open>free_symbols\<close> is a Python set, and the device code iterates over it
  (\<^verbatim>\<open>for symbol in free_syms\<close>). The iteration order of a set is not fixed by the
  language, so every function that iterates takes the order as a parameter \<open>ord\<close>: the
  list in which the symbols of an expression are visited. An order is valid when it
  enumerates exactly the free symbols, each once. \<open>symbols_in_order\<close> is one valid order
  (first occurrence, left to right).
\<close>

definition valid_order :: "(expr \<Rightarrow> string list) \<Rightarrow> expr \<Rightarrow> bool" where
  "valid_order ord e \<longleftrightarrow> distinct (ord e) \<and> set (ord e) = free_symbols e"

fun symbol_occurrences :: "expr \<Rightarrow> string list" where
  "symbol_occurrences (Num k) = []"
| "symbol_occurrences (Sym s) = [s]"
| "symbol_occurrences (App f args) = concat (map symbol_occurrences args)"

definition symbols_in_order :: "expr \<Rightarrow> string list" where
  "symbols_in_order e = remdups (symbol_occurrences e)"

text \<open>
  \<^verbatim>\<open>expr.subs(old, new)\<close> for a symbol \<open>old\<close>: every occurrence of the symbol is
  replaced by \<open>new\<close>.
\<close>

fun subs1 :: "string \<Rightarrow> expr \<Rightarrow> expr \<Rightarrow> expr" where
  "subs1 old new (Num k) = Num k"
| "subs1 old new (Sym s) = (if s = old then new else Sym s)"
| "subs1 old new (App f args) = App f (map (subs1 old new) args)"

text \<open>
  \<^verbatim>\<open>expr.subs(pairs)\<close> with a list of pairs: the replacements are made one after the
  other, in the order of the list, each on the result of the one before.
\<close>

definition sympy_subs :: "(string \<times> expr) list \<Rightarrow> expr \<Rightarrow> expr" where
  "sympy_subs pairs e = foldl (\<lambda>acc (old, new). subs1 old new acc) e pairs"

text \<open>
  The reference notion the claims speak of: the expression with each symbol \<open>s\<close> replaced
  by \<open>\<sigma> s\<close> where that is defined, all at once, in one traversal; what is put in is
  not visited.
\<close>

fun replace_symbols :: "(string \<Rightarrow> expr option) \<Rightarrow> expr \<Rightarrow> expr" where
  "replace_symbols \<sigma> (Num k) = Num k"
| "replace_symbols \<sigma> (Sym s) = (case \<sigma> s of None \<Rightarrow> Sym s | Some v \<Rightarrow> v)"
| "replace_symbols \<sigma> (App f args) = App f (map (replace_symbols \<sigma>) args)"

section \<open>Python values and exceptions\<close>

text \<open>
  An exception is a value. \<open>KeyError\<close> carries the key that was looked up (its only
  argument), \<open>AssertionError\<close> the message of the failed \<^verbatim>\<open>assert\<close>,
  \<open>AttributeError\<close> the class of the object and the attribute that is missing.
  \<open>SympifyError\<close> is the library's refusal to turn a Python object into an expression.
  A key is any hashable value: a string, an integer, an expression of the library.
\<close>

datatype key = StrKey string | IntKey int | ExprKey expr

datatype error =
    KeyError key
  | ValueError
  | IndexError
  | TypeError
  | SympifyError
  | AssertionError string
  | AttributeError string string

text \<open>
  What an expansion returns or stores: a Python list of expressions, or an object of the
  library (an expression; an array of the library is the expression \<open>Array xs\<close>).
\<close>

datatype pyval = Seq "expr list" | Single expr

text \<open>
  The \<^verbatim>\<open>return_as\<close> / \<^verbatim>\<open>output_type\<close> argument: \<^verbatim>\<open>None\<close>, the builtin
  \<^verbatim>\<open>list\<close>, or any other callable (\<^verbatim>\<open>smp.Array\<close> in the source).
\<close>

datatype return_as = RNone | RList | RCall "pyval \<Rightarrow> error + pyval"

text \<open>\<^verbatim>\<open>list(x)\<close> and \<^verbatim>\<open>smp.Array(x)\<close> on the values above.\<close>

fun py_list :: "pyval \<Rightarrow> error + pyval" where
  "py_list (Seq xs) = Inr (Seq xs)"
| "py_list (Single (App f args)) = (if f = ''Array'' then Inr (Seq args) else Inl TypeError)"
| "py_list (Single e) = Inl TypeError"

fun smp_Array :: "pyval \<Rightarrow> error + pyval" where
  "smp_Array (Seq xs) = Inr (Single (Array xs))"
| "smp_Array (Single (App f args)) =
     (if f = ''Array'' then Inr (Single (App f args)) else Inr (Single (Array [App f args])))"
| "smp_Array (Single e) = Inr (Single (Array [e]))"

section \<open>Simultaneous substitution in the library\<close>

text \<open>
  \<^verbatim>\<open>expr.subs(pairs, simultaneous=True)\<close>, as the library carries it out.

  First each new value is turned into an expression; a Python list is refused with
  \<open>SympifyError\<close>, an object of the library is taken as it is.
\<close>

fun sympify_new :: "pyval \<Rightarrow> error + expr" where
  "sympify_new (Seq xs) = Inl SympifyError"
| "sympify_new (Single e) = Inr e"

fun sympify_sequence :: "(string \<times> pyval) list \<Rightarrow> error + (string \<times> expr) list" where
  "sympify_sequence [] = Inr []"
| "sympify_sequence ((old, new) # rest) =
     (case sympify_new new of
        Inl er \<Rightarrow> Inl er
      | Inr v \<Rightarrow>
          (case sympify_sequence rest of
             Inl er \<Rightarrow> Inl er
           | Inr pairs \<Rightarrow> Inr ((old, v) # pairs)))"

text \<open>
  Then the library makes one \<^verbatim>\<open>Dummy\<close> symbol per pair. A dummy is a symbol that is
  different from every other symbol; here its name is longer than every name that occurs
  in the call, and the dummies of one call have different lengths.
\<close>

fun longest_name :: "expr \<Rightarrow> nat" where
  "longest_name (Num k) = 0"
| "longest_name (Sym s) = length s"
| "longest_name (App f args) = foldr max (map longest_name args) 0"

definition name_bound :: "(string \<times> expr) list \<Rightarrow> expr \<Rightarrow> nat" where
  "name_bound pairs e =
     foldr max (map (\<lambda>(old, new). max (length old) (longest_name new)) pairs) (longest_name e)"

definition dummy_symbols :: "(string \<times> expr) list \<Rightarrow> expr \<Rightarrow> string list" where
  "dummy_symbols pairs e =
     map (\<lambda>i. replicate (Suc (name_bound pairs e + i)) (CHR ''_'')) [0..<length pairs]"

text \<open>
  \<^verbatim>\<open>rv.xreplace(reps)\<close>: the exact replacement of the keys of a dictionary in one
  traversal of the expression.
\<close>

definition xreplace :: "(string \<times> expr) list \<Rightarrow> expr \<Rightarrow> expr" where
  "xreplace reps e = replace_symbols (map_of reps) e"

text \<open>
  The substitution itself has two passes. The first is a loop over the pairs that
  replaces, pair after pair, the old symbol by the dummy of the pair
  (\<^verbatim>\<open>rv = rv._subs(old, d)\<close>) and notes the pair
  \<^verbatim>\<open>reps[d] = new\<close>; the second replaces the dummies by the new values with
  \<^verbatim>\<open>xreplace\<close>. The library then builds the resulting term, which rewrites it and
  may raise (an array inside a product is refused); what it makes of a term is the
  parameter \<open>evaluate\<close>.
\<close>

definition sympy_subs_simultaneous ::
  "(expr \<Rightarrow> error + expr) \<Rightarrow> (string \<times> pyval) list \<Rightarrow> expr \<Rightarrow> error + expr" where
  "sympy_subs_simultaneous evaluate sequence e =
     (case sympify_sequence sequence of
        Inl er \<Rightarrow> Inl er
      | Inr pairs \<Rightarrow>
          (let dummies = dummy_symbols pairs e;
               rv = sympy_subs (zip (map fst pairs) (map Sym dummies)) e;
               reps = zip dummies (map snd pairs)
           in evaluate (xreplace reps rv)))"

section \<open>The device\<close>

text \<open>
  \<^verbatim>\<open>class DeviceBase\<close>. The attributes that \<^verbatim>\<open>__init__\<close> creates and the modelled
  methods read are the typed fields; an \<^verbatim>\<open>OrderedDict\<close> is an association list in
  insertion order. Leading underscores are dropped (\<^verbatim>\<open>_param_int\<close> is \<open>param_int\<close>,
  \<^verbatim>\<open>_int\<close> is \<open>int_rows\<close>). Equation texts and parameter defaults are kept as the
  source writes them, as strings.

  \<open>attrs\<close> is the rest of the instance dictionary \<^verbatim>\<open>self.__dict__\<close>: the entries
  that hold one value per element (created by \<^verbatim>\<open>_init_data\<close>, \<^verbatim>\<open>get_algeb_ext\<close>,
  \<^verbatim>\<open>_compute_param_int\<close>), looked up by name with \<^verbatim>\<open>self.__dict__[name]\<close>.
  The attributes of \<^verbatim>\<open>__init__\<close> are entries of the same Python dictionary under
  the names \<open>init_attr_names\<close>; a template whose symbol is one of those names is outside
  the model.

  An entry of \<open>attrs\<close> is a Python list or an array of the library. The two have the
  same length and the same items, which is all that \<open>attrs\<close> records;
  \<open>py_list_entries\<close> is the set of the names whose entry is a Python list
  (\<^verbatim>\<open>_compute_param_int\<close> stores lists, \<^verbatim>\<open>get_algeb_ext\<close> stores arrays). The
  container matters where the library is handed the whole entry, and for the exception
  that an index out of range raises.

  \<open>self.system\<close> is a reference back to the registry; the methods that follow it take the
  registry as an argument instead.
\<close>

record device =
  class_name :: string
  idx :: "key list"
  param_int :: "string list"
  param_int_default :: "(string \<times> string) list"
  param_int_non_computational :: "string list"
  param_int_computed :: "(string \<times> string) list"
  int_rows :: "(key \<times> nat) list"
  foreign_keys :: "(string \<times> string) list"
  algeb_int :: "string list"
  algeb_intf :: "string list"
  algeb_ext :: "(string \<times> (string \<times> string)) list"
  gcall_ext :: "(string \<times> string) list"
  gcall_ext_symbolic_singleton :: "(string \<times> expr) list"
  gcall_ext_symbolic :: "(string \<times> pyval) list"
  symbol_singleton :: "(string \<times> expr) list"
  gcall_int :: "(string \<times> string) list"
  gcall_int_symbolic_singleton :: "(string \<times> expr) list"
  gcall_int_symbolic :: "(string \<times> pyval) list"
  special_flags :: "(string \<times> bool) list"
  dae_address :: "(string \<times> nat list) list"
  attrs :: "string \<Rightarrow> expr list option"
  py_list_entries :: "string set"

type_synonym system = "string \<Rightarrow> device option"

text \<open>The names \<^verbatim>\<open>DeviceBase.__init__\<close> assigns, in the order of the source.\<close>

definition init_attr_names :: "string list" where
  "init_attr_names =
    [''system'', ''idx'', ''_options'', ''_param_data'', ''_param_int'', ''_param_int_default'',
     ''_param_int_non_computational'', ''_param_int_computed'', ''_param_int_custom'',
     ''_param_ext'', ''_param_ext_computed'', ''_int'', ''_foreign_keys'', ''_algeb_int'',
     ''_algeb_intf'', ''_algeb_ext'', ''_var_int_computed'', ''_var_int_custom'',
     ''_state_int'', ''_state_intf'', ''_state_ext'', ''_workflow'', ''_gcall_ext'',
     ''_gcall_ext_symbolic_singleton'', ''_gcall_ext_symbolic'', ''_symbol_singleton'',
     ''_gcall_int'', ''_gcall_int_symbolic_singleton'', ''_gcall_int_symbolic'',
     ''_special_flags'', ''_var_int_non_commutative'', ''_dae_address'']"

text \<open>The property \<^verbatim>\<open>n\<close>: \<^verbatim>\<open>len(self.idx)\<close>.\<close>

definition device_n :: "device \<Rightarrow> nat" where
  "device_n dev = length (idx dev)"

text \<open>\<^verbatim>\<open>len(d)\<close> of a dictionary: the number of its keys.\<close>

definition dict_len :: "('k \<times> 'v) list \<Rightarrow> nat" where
  "dict_len d = length (remdups (map fst d))"

section \<open>Vectorized expansion\<close>

text \<open>
  \<^verbatim>\<open>[len(self.__dict__[str(x)]) for x in free_syms]\<close>: the lengths in iteration
  order; the first name that is not in the dictionary raises \<open>KeyError\<close>.
\<close>

fun quantity_lengths :: "device \<Rightarrow> string list \<Rightarrow> error + nat list" where
  "quantity_lengths dev [] = Inr []"
| "quantity_lengths dev (s # ss) =
     (case attrs dev s of
        None \<Rightarrow> Inl (KeyError (StrKey s))
      | Some xs \<Rightarrow>
          (case quantity_lengths dev ss of
             Inl er \<Rightarrow> Inl er
           | Inr ns \<Rightarrow> Inr (length xs # ns)))"

text \<open>\<^verbatim>\<open>min(list)\<close>: \<open>ValueError\<close> on the empty list.\<close>

fun py_min :: "nat list \<Rightarrow> error + nat" where
  "py_min [] = Inl ValueError"
| "py_min (k # ks) = Inr (foldl min k ks)"

text \<open>
  \<^verbatim>\<open>entry[i]\<close> with \<open>i\<close> outside the entry: a Python list raises \<open>IndexError\<close>, an
  array of the library raises \<open>ValueError\<close>.
\<close>

definition index_out_of_range :: "device \<Rightarrow> string \<Rightarrow> error" where
  "index_out_of_range dev name = (if name \<in> py_list_entries dev then IndexError else ValueError)"

text \<open>
  The inner loop for one element index \<open>i\<close>: the list of pairs \<open>(symbol, i-th value)\<close>, and
  the names for which the \<^verbatim>\<open>logger.debug\<close> line of the skip branch was written.
\<close>

fun sym_list_at :: "device \<Rightarrow> nat \<Rightarrow> string list \<Rightarrow> error + (string list \<times> (string \<times> expr) list)" where
  "sym_list_at dev i [] = Inr ([], [])"
| "sym_list_at dev i (s # ss) =
     (case attrs dev s of
        None \<Rightarrow> Inl (KeyError (StrKey s))
      | Some xs \<Rightarrow>
          if length xs = 0 then
            (case sym_list_at dev i ss of
               Inl er \<Rightarrow> Inl er
             | Inr (skipped, pairs) \<Rightarrow> Inr (s # skipped, pairs))
          else if i < length xs then
            (case sym_list_at dev i ss of
               Inl er \<Rightarrow> Inl er
             | Inr (skipped, pairs) \<Rightarrow> Inr (skipped, (s, xs ! i) # pairs))
          else Inl (index_out_of_range dev s))"

text \<open>The outer loop \<^verbatim>\<open>for i in range(n_element)\<close>, over the indices still to do.\<close>

fun expand_rows :: "device \<Rightarrow> string list \<Rightarrow> expr \<Rightarrow> nat list \<Rightarrow> error + (string list \<times> expr list)" where
  "expand_rows dev fs e [] = Inr ([], [])"
| "expand_rows dev fs e (i # is) =
     (case sym_list_at dev i fs of
        Inl er \<Rightarrow> Inl er
      | Inr (skipped, pairs) \<Rightarrow>
          (case expand_rows dev fs e is of
             Inl er \<Rightarrow> Inl er
           | Inr (skipped', rows) \<Rightarrow> Inr (skipped @ skipped', sympy_subs pairs e # rows)))"

text \<open>
  \<^verbatim>\<open>_subs_all_vectorized\<close> up to the list \<^verbatim>\<open>ret\<close>: the result is the pair of the
  diagnostics written and the list.
\<close>

definition subs_all_vectorized :: "(expr \<Rightarrow> string list) \<Rightarrow> device \<Rightarrow> expr \<Rightarrow> error + (string list \<times> expr list)" where
  "subs_all_vectorized ord dev equation_singleton =
     (let free_syms = ord equation_singleton in
      case quantity_lengths dev free_syms of
        Inl er \<Rightarrow> Inl er
      | Inr lens \<Rightarrow>
          (case py_min lens of
             Inl er \<Rightarrow> Inl er
           | Inr n_element \<Rightarrow> expand_rows dev free_syms equation_singleton [0..<n_element]))"

text \<open>
  The end of \<^verbatim>\<open>_subs_all_vectorized\<close>: \<^verbatim>\<open>None\<close> and \<^verbatim>\<open>list\<close> leave the list
  as it is, any other \<^verbatim>\<open>return_as\<close> is called on it.
\<close>

fun return_vectorized :: "return_as \<Rightarrow> expr list \<Rightarrow> error + pyval" where
  "return_vectorized RNone ret = Inr (Seq ret)"
| "return_vectorized RList ret = Inr (Seq ret)"
| "return_vectorized (RCall f) ret = f (Seq ret)"

text \<open>
  The templates claim C1 speaks of. Every free symbol names a per-element array of the
  device whose length is the element count; and the entries of those arrays are concrete:
  no symbol in an entry is the name of a quantity of the device.
\<close>

definition declared_per_element :: "device \<Rightarrow> expr \<Rightarrow> bool" where
  "declared_per_element dev e \<longleftrightarrow>
     (\<forall>s\<in>free_symbols e. map_option length (attrs dev s) = Some (device_n dev))"

definition entries :: "device \<Rightarrow> string \<Rightarrow> expr list" where
  "entries dev s = (case attrs dev s of None \<Rightarrow> [] | Some xs \<Rightarrow> xs)"

definition concrete_entries :: "device \<Rightarrow> expr \<Rightarrow> bool" where
  "concrete_entries dev e \<longleftrightarrow>
     (\<forall>s\<in>free_symbols e. \<forall>x\<in>set (entries dev s). \<forall>t\<in>free_symbols x. attrs dev t = None)"

section \<open>Singleton expansion\<close>

text \<open>
  The whole entry of a name, as the object it is: a Python list or an array of the
  library.
\<close>

definition whole_entry :: "device \<Rightarrow> string \<Rightarrow> expr list \<Rightarrow> pyval" where
  "whole_entry dev name xs = (if name \<in> py_list_entries dev then Seq xs else Single (Array xs))"

text \<open>The loop of \<^verbatim>\<open>_subs_all_singleton\<close>: each symbol with its whole entry.\<close>

fun sym_list_whole :: "device \<Rightarrow> string list \<Rightarrow> error + (string \<times> pyval) list" where
  "sym_list_whole dev [] = Inr []"
| "sym_list_whole dev (s # ss) =
     (case attrs dev s of
        None \<Rightarrow> Inl (KeyError (StrKey s))
      | Some xs \<Rightarrow>
          (case sym_list_whole dev ss of
             Inl er \<Rightarrow> Inl er
           | Inr pairs \<Rightarrow> Inr ((s, whole_entry dev s xs) # pairs)))"

fun return_singleton :: "return_as \<Rightarrow> expr \<Rightarrow> error + pyval" where
  "return_singleton RNone ret = Inr (Single ret)"
| "return_singleton RList ret = py_list (Single ret)"
| "return_singleton (RCall f) ret = f (Single ret)"

text \<open>
  \<^verbatim>\<open>_subs_all_singleton\<close>: the loop, the one call
  \<^verbatim>\<open>equation_singleton.subs(sym_list, simultaneous=True)\<close>, the return type.
\<close>

definition subs_all_singleton ::
  "(expr \<Rightarrow> error + expr) \<Rightarrow> (expr \<Rightarrow> string list) \<Rightarrow> device \<Rightarrow> expr \<Rightarrow> return_as \<Rightarrow> error + pyval" where
  "subs_all_singleton evaluate ord dev equation_singleton ret_as =
     (let free_syms = ord equation_singleton in
      case sym_list_whole dev free_syms of
        Inl er \<Rightarrow> Inl er
      | Inr sym_list \<Rightarrow>
          (case sympy_subs_simultaneous evaluate sym_list equation_singleton of
             Inl er \<Rightarrow> Inl er
           | Inr ret \<Rightarrow> return_singleton ret_as ret))"

text \<open>Every free symbol of the template is a key of \<open>attrs\<close>.\<close>

definition all_declared :: "device \<Rightarrow> expr \<Rightarrow> bool" where
  "all_declared dev e \<longleftrightarrow> (\<forall>s\<in>free_symbols e. attrs dev s \<noteq> None)"


section \<open>Row indices and imports from other devices\<close>

text \<open>
  \<^verbatim>\<open>idx2int\<close>: \<^verbatim>\<open>np.array([self._int[i] for i in idx])\<close>. \<^verbatim>\<open>_int\<close> is a
  dictionary from external identifiers to rows; looking up anything that is not one of
  its keys raises \<open>KeyError\<close> with the key that was looked up.
\<close>

fun idx2int :: "device \<Rightarrow> key list \<Rightarrow> error + nat list" where
  "idx2int dev [] = Inr []"
| "idx2int dev (i # is) =
     (case map_of (int_rows dev) i of
        None \<Rightarrow> Inl (KeyError i)
      | Some r \<Rightarrow>
          (case idx2int dev is of
             Inl er \<Rightarrow> Inl er
           | Inr rs \<Rightarrow> Inr (r # rs)))"

text \<open>
  \<^verbatim>\<open>create_n_default_elements\<close>: \<open>idx\<close> and \<open>_int\<close> for \<open>n\<close> elements, both
  \<^verbatim>\<open>range(n)\<close>.
\<close>

definition create_n_default_elements :: "device \<Rightarrow> int \<Rightarrow> error + device" where
  "create_n_default_elements dev n =
     (if \<not> n \<ge> 0 then Inl (AssertionError [])
      else Inr (dev\<lparr>idx := map (\<lambda>i. IntKey (int i)) [0..<nat n],
                     int_rows := map (\<lambda>i. (IntKey (int i), i)) [0..<nat n]\<rparr>))"













text \<open>
  The row that \<^verbatim>\<open>_int\<close> gives an external identifier, and the condition under
  which all elements of a device can be imported: every identifier has a row, and the
  row is inside the address array and the symbol array that are read.
\<close>

definition row_of :: "device \<Rightarrow> key \<Rightarrow> nat" where
  "row_of d k = the (map_of (int_rows d) k)"


section \<open>The consistency check\<close>

text \<open>
  \<^verbatim>\<open>_check_number_of_algeb_equations\<close>: two \<^verbatim>\<open>assert\<close> statements, one after the
  other; the message of each starts with the class name. The difference of the two
  lengths is a Python integer and may be negative.
\<close>

definition check_number_of_algeb_equations :: "device \<Rightarrow> error + unit" where
  "check_number_of_algeb_equations dev =
     (case map_of (special_flags dev) ''no_algeb_ext_check'' of
        None \<Rightarrow> Inl (KeyError (StrKey ''no_algeb_ext_check''))
      | Some flag \<Rightarrow>
          if flag = False \<and> \<not> dict_len (algeb_ext dev) = dict_len (gcall_ext dev) then
            Inl (AssertionError (class_name dev @ '' Number of _algeb_ext does not equal _gcall_ext''))
          else if \<not> int (length (algeb_int dev)) - int (length (algeb_intf dev))
                      \<le> int (dict_len (gcall_int dev)) then
            Inl (AssertionError (class_name dev @ '' Too few gcall_int equations''))
          else Inr ())"

definition metadata_check :: "device \<Rightarrow> error + unit" where
  "metadata_check dev = check_number_of_algeb_equations dev"

section \<open>Derived parameters\<close>

text \<open>
  \<^verbatim>\<open>_compute_param_int\<close>. \<^verbatim>\<open>smp.sympify(eq)\<close> parses the equation text; the parser
  belongs to the algebra library and is the parameter \<open>sympify\<close>. \<^verbatim>\<open>return_as\<close> has
  its default \<^verbatim>\<open>list\<close>, so the Python list is stored as it is.
\<close>

fun compute_param_int_loop ::
  "(string \<Rightarrow> error + expr) \<Rightarrow> (expr \<Rightarrow> string list) \<Rightarrow> device \<Rightarrow> (string \<times> string) list \<Rightarrow> error + device" where
  "compute_param_int_loop sympify ord dev [] = Inr dev"
| "compute_param_int_loop sympify ord dev ((var, eq) # items) =
     (case sympify eq of
        Inl er \<Rightarrow> Inl er
      | Inr equation_singleton \<Rightarrow>
          (case subs_all_vectorized ord dev equation_singleton of
             Inl er \<Rightarrow> Inl er
           | Inr (skipped, ret) \<Rightarrow>
               compute_param_int_loop sympify ord
                 (dev\<lparr>attrs := (attrs dev)(var \<mapsto> ret),
                      py_list_entries := insert var (py_list_entries dev)\<rparr>) items))"

definition compute_param_int ::
  "(string \<Rightarrow> error + expr) \<Rightarrow> (expr \<Rightarrow> string list) \<Rightarrow> device \<Rightarrow> error + device" where
  "compute_param_int sympify ord dev =
     (if dict_len (param_int_computed dev) > 0
      then compute_param_int_loop sympify ord dev (param_int_computed dev)
      else Inr dev)"

section \<open>Delayed substitution\<close>

text \<open>
  \<^verbatim>\<open>delayed_symbol_sub\<close>. The source names the two dictionaries by string
  (\<^verbatim>\<open>self.__dict__[in_dict_name]\<close>) and changes the output dictionary in place; here
  the dictionaries themselves are passed, and the result is the output dictionary as the
  call leaves it together with the exception that ended the call, if there was one.
  \<^verbatim>\<open>d[var] = value\<close> keeps the position of a key that is present and appends a new one.
  \<open>evaluate\<close> is the library's term construction, used by the singleton expansion.
\<close>

fun delayed_symbol_sub_loop ::
  "(expr \<Rightarrow> error + expr) \<Rightarrow> (expr \<Rightarrow> string list) \<Rightarrow> device \<Rightarrow> string \<Rightarrow> return_as \<Rightarrow> bool \<Rightarrow>
   (string \<times> expr) list \<Rightarrow> (string \<times> pyval) list \<Rightarrow> (string \<times> pyval) list \<times> error option" where
  "delayed_symbol_sub_loop evaluate ord dev subs_type output_type update [] out_dict = (out_dict, None)"
| "delayed_symbol_sub_loop evaluate ord dev subs_type output_type update ((var, eq) # items) out_dict =
     (if \<not> update \<and> var \<in> set (map fst out_dict) then
        delayed_symbol_sub_loop evaluate ord dev subs_type output_type update items out_dict
      else if subs_type = ''vectorized'' then
        (case subs_all_vectorized ord dev eq of
           Inl er \<Rightarrow> (out_dict, Some er)
         | Inr (skipped, ret) \<Rightarrow>
             (case return_vectorized output_type ret of
                Inl er \<Rightarrow> (out_dict, Some er)
              | Inr v \<Rightarrow>
                  delayed_symbol_sub_loop evaluate ord dev subs_type output_type update items
                    (AList.update var v out_dict)))
      else if subs_type = ''singleton'' then
        (case subs_all_singleton evaluate ord dev eq output_type of
           Inl er \<Rightarrow> (out_dict, Some er)
         | Inr v \<Rightarrow>
             delayed_symbol_sub_loop evaluate ord dev subs_type output_type update items
               (AList.update var v out_dict))
      else delayed_symbol_sub_loop evaluate ord dev subs_type output_type update items out_dict)"

definition delayed_symbol_sub ::
  "(expr \<Rightarrow> error + expr) \<Rightarrow> (expr \<Rightarrow> string list) \<Rightarrow> device \<Rightarrow> (string \<times> expr) list \<Rightarrow>
   (string \<times> pyval) list \<Rightarrow> string \<Rightarrow> return_as \<Rightarrow> bool \<Rightarrow> (string \<times> pyval) list \<times> error option" where
  "delayed_symbol_sub evaluate ord dev in_dict out_dict subs_type output_type update =
     (if subs_type \<notin> {''vectorized'', ''singleton''} then (out_dict, Some (AssertionError []))
      else delayed_symbol_sub_loop evaluate ord dev subs_type output_type update in_dict out_dict)"

text \<open>\<^verbatim>\<open>delayed_symbol_sub_all\<close>: the external equations, then the internal ones.\<close>

definition delayed_symbol_sub_all ::
  "(expr \<Rightarrow> error + expr) \<Rightarrow> (expr \<Rightarrow> string list) \<Rightarrow> device \<Rightarrow> device \<times> error option" where
  "delayed_symbol_sub_all evaluate ord dev =
     (case delayed_symbol_sub evaluate ord dev (gcall_ext_symbolic_singleton dev)
             (gcall_ext_symbolic dev) ''vectorized'' (RCall smp_Array) False of
        (out_ext, Some er) \<Rightarrow> (dev\<lparr>gcall_ext_symbolic := out_ext\<rparr>, Some er)
      | (out_ext, None) \<Rightarrow>
          (let dev1 = dev\<lparr>gcall_ext_symbolic := out_ext\<rparr> in
           case delayed_symbol_sub evaluate ord dev1 (gcall_int_symbolic_singleton dev1)
                  (gcall_int_symbolic dev1) ''vectorized'' (RCall smp_Array) False of
             (out_int, r) \<Rightarrow> (dev1\<lparr>gcall_int_symbolic := out_int\<rparr>, r)))"

section \<open>Constructors\<close>

text \<open>
  \<^verbatim>\<open>DeviceBase.__init__\<close>. \<open>cls\<close> is the class of the object being built
  (\<^verbatim>\<open>self.__class__.__name__\<close>). The instance dictionary holds the names
  \<open>init_attr_names\<close> and nothing else.
\<close>

definition DeviceBase_init :: "string \<Rightarrow> system \<Rightarrow> device" where
  "DeviceBase_init cls sys =
     \<lparr>class_name = cls,
      idx = [],
      param_int = [''name'', ''u''],
      param_int_default = [(''name'', []), (''u'', ''1'')],
      param_int_non_computational = [''name''],
      param_int_computed = [],
      int_rows = [],
      foreign_keys = [],
      algeb_int = [],
      algeb_intf = [],
      algeb_ext = [],
      gcall_ext = [],
      gcall_ext_symbolic_singleton = [],
      gcall_ext_symbolic = [],
      symbol_singleton = [],
      gcall_int = [],
      gcall_int_symbolic_singleton = [],
      gcall_int_symbolic = [],
      special_flags = [(''no_algeb_ext_check'', False),
                       (''state_group_by_element'', True),
                       (''algeb_group_by_element'', True)],
      dae_address = [],
      attrs = (\<lambda>name. None),
      py_list_entries = {}\<rparr>"

text \<open>
  The names defined in the body of \<^verbatim>\<open>class DeviceBase\<close> (its methods and the
  property \<^verbatim>\<open>n\<close>); \<^verbatim>\<open>PV\<close> and \<^verbatim>\<open>Slack\<close> define \<^verbatim>\<open>__init__\<close> only.
\<close>

definition class_attr_names :: "string list" where
  "class_attr_names =
    [''__init__'', ''make_gcall_ext_symbolic'', ''make_gcall_int_symbolic'',
     ''delayed_symbol_sub'', ''delayed_symbol_sub_all'', ''_subs_all_vectorized'',
     ''_subs_all_singleton'', ''_init_data'', ''get_algeb_ext'', ''_get_int_of_element'',
     ''get_list_of_symbols_from_ext'', ''idx2int'', ''create_n_default_elements'',
     ''_init_equation'', ''_check_number_of_algeb_equations'', ''metadata_check'',
     ''_compute_param_int'', ''_compute_variable'', ''_compute_variable_custom'',
     ''_compute_param_custom'', ''n'', ''get_var_address'', ''is_state'', ''is_algeb'']"

text \<open>
  Attribute lookup \<^verbatim>\<open>self.name\<close> finds a name in the instance dictionary or in the
  class; otherwise it raises \<open>AttributeError\<close>.
\<close>

definition has_attribute :: "device \<Rightarrow> string \<Rightarrow> bool" where
  "has_attribute dev name \<longleftrightarrow>
     name \<in> set init_attr_names \<or> attrs dev name \<noteq> None \<or> name \<in> set class_attr_names"

text \<open>\<^verbatim>\<open>d.update({...})\<close> on an ordered dictionary, pair by pair.\<close>

definition dict_update :: "('k \<times> 'v) list \<Rightarrow> ('k \<times> 'v) list \<Rightarrow> ('k \<times> 'v) list" where
  "dict_update new d = foldl (\<lambda>acc (k, v). AList.update k v acc) d new"

text \<open>
  \<^verbatim>\<open>PV.__init__\<close>. The third statement reads \<^verbatim>\<open>self._param_int_mandatory\<close>; when
  the lookup succeeds, \<^verbatim>\<open>.extend(['bus'])\<close> appends the name to the sequence found.
\<close>

definition PV_init :: "string \<Rightarrow> system \<Rightarrow> error + device" where
  "PV_init cls sys =
     (let self = DeviceBase_init cls sys;
          self = self\<lparr>param_int := param_int self @
                   [''bus'', ''p0'', ''v0'', ''Sn'', ''Vn'', ''vmax'', ''vmin'', ''qmax'', ''qmin'']\<rparr>;
          self = self\<lparr>param_int_non_computational :=
                   param_int_non_computational self @ [''bus'']\<rparr>
      in
      if \<not> has_attribute self ''_param_int_mandatory'' then
        Inl (AttributeError cls ''_param_int_mandatory'')
      else
        Inr (self\<lparr>attrs := (case attrs self ''_param_int_mandatory'' of
                               None \<Rightarrow> attrs self
                             | Some xs \<Rightarrow> (attrs self)(''_param_int_mandatory'' \<mapsto> xs @ [Sym ''bus''])),
                  param_int_default := dict_update
                    [(''p0'', ''0''), (''v0'', ''1''), (''Sn'', ''100''), (''Vn'', ''110''),
                     (''vmax'', ''1.1''), (''vmin'', ''0.9''), (''qmax'', ''999''), (''qmin'', ''-999'')]
                    (param_int_default self),
                  foreign_keys := dict_update [(''bus'', ''Bus'')] (foreign_keys self),
                  algeb_ext := dict_update [(''a'', (''bus'', ''a'')), (''v'', (''bus'', ''v''))]
                    (algeb_ext self),
                  algeb_int := algeb_int self @ [''q''],
                  gcall_int := dict_update [(''q'', ''v - v0'')] (gcall_int self),
                  gcall_ext := dict_update [(''a'', ''-p0''), (''v'', ''-q'')] (gcall_ext self)\<rparr>))"

text \<open>
  \<^verbatim>\<open>Slack.__init__\<close>: the constructor of \<^verbatim>\<open>PV\<close> first, on the same object.
  \<^verbatim>\<open>list.remove\<close> raises \<open>ValueError\<close> and \<^verbatim>\<open>dict.pop\<close> raises \<open>KeyError\<close> when the
  name is not there.
\<close>

definition Slack_init :: "string \<Rightarrow> system \<Rightarrow> error + device" where
  "Slack_init cls sys =
     (case PV_init cls sys of
        Inl er \<Rightarrow> Inl er
      | Inr self \<Rightarrow>
          if ''p0'' \<notin> set (param_int self) then Inl ValueError
          else if ''p0'' \<notin> set (map fst (param_int_default self)) then Inl (KeyError (StrKey ''p0''))
          else
            Inr (self\<lparr>param_int := remove1 ''p0'' (param_int self) @ [''a0''],
                      param_int_default := dict_update [(''a0'', ''0'')]
                        (AList.delete ''p0'' (param_int_default self)),
                      algeb_int := algeb_int self @ [''p''],
                      gcall_int := dict_update [(''p'', ''a - a0'')] (gcall_int self),
                      gcall_ext := dict_update [(''a'', ''-p'')] (gcall_ext self)\<rparr>))"

text \<open>The calls \<^verbatim>\<open>PV(system)\<close> and \<^verbatim>\<open>Slack(system)\<close>.\<close>

definition new_PV :: "system \<Rightarrow> error + device" where
  "new_PV sys = PV_init ''PV'' sys"

definition new_Slack :: "system \<Rightarrow> error + device" where
  "new_Slack sys = Slack_init ''Slack'' sys"

section \<open>Example data\<close>

text \<open>
  A bus device with two elements, as \<^verbatim>\<open>_init_data\<close> leaves it: the per-element
  symbols of the voltage angle \<open>a\<close> and magnitude \<open>v\<close>, and their addresses.
\<close>

definition bus2 :: device where
  "bus2 = (DeviceBase_init ''Bus'' (\<lambda>name. None))
     \<lparr>idx := [IntKey 0, IntKey 1],
      int_rows := [(IntKey 0, 0), (IntKey 1, 1)],
      algeb_int := [''a'', ''v''],
      algeb_intf := [''a'', ''v''],
      dae_address := [(''a'', [0, 1]), (''v'', [2, 3])],
      attrs := map_of [(''a'', [Sym ''Bus_a_0'', Sym ''Bus_a_1'']),
                       (''v'', [Sym ''Bus_v_0'', Sym ''Bus_v_1''])]\<rparr>"

text \<open>The template \<^verbatim>\<open>v - a\<close>, in the library's form \<^verbatim>\<open>Add(v, Mul(-1, a))\<close>.\<close>

definition v_minus_a :: expr where
  "v_minus_a = App ''Add'' [Sym ''v'', App ''Mul'' [Num (- 1), Sym ''a'']]"

text \<open>
  The bus device with a third quantity \<open>p\<close> whose array is empty, and the template
  \<^verbatim>\<open>a + p\<close>.
\<close>

definition bus2_empty_p :: device where
  "bus2_empty_p = bus2\<lparr>attrs := (attrs bus2)(''p'' \<mapsto> [])\<rparr>"

definition a_plus_p :: expr where
  "a_plus_p = App ''Add'' [Sym ''a'', Sym ''p'']"

text \<open>
  A device on which one quantity's array mentions the name of another: \<open>x\<close> holds the
  symbol \<open>y\<close>. The template is \<^verbatim>\<open>x + y\<close>.
\<close>

definition alias_dev :: device where
  "alias_dev = (DeviceBase_init ''Alias'' (\<lambda>name. None))
     \<lparr>idx := [IntKey 0],
      int_rows := [(IntKey 0, 0)],
      attrs := map_of [(''x'', [Sym ''y'']), (''y'', [Num 1])]\<rparr>"

definition x_plus_y :: expr where
  "x_plus_y = App ''Add'' [Sym ''x'', Sym ''y'']"

text \<open>
  Two generator-like devices without local equations: one internal variable and no
  entry in \<^verbatim>\<open>_gcall_int\<close>; two internal variables and no entry.
\<close>

definition gen_one_var :: device where
  "gen_one_var = (DeviceBase_init ''PV'' (\<lambda>name. None))\<lparr>algeb_int := [''q'']\<rparr>"

definition gen_two_vars :: device where
  "gen_two_vars = (DeviceBase_init ''PV'' (\<lambda>name. None))\<lparr>algeb_int := [''q'', ''p'']\<rparr>"

text \<open>
  A line device with two elements: the reactance \<open>x\<close> has values, the derived
  parameters \<open>g\<close> and \<open>h\<close> hold the placeholders of \<^verbatim>\<open>_init_data\<close>; \<open>h\<close> is
  declared after \<open>g\<close> and refers to it. The parser is a table of the two equation texts
  (the library's parse error is a \<open>ValueError\<close>).
\<close>

definition line2 :: device where
  "line2 = (DeviceBase_init ''Line'' (\<lambda>name. None))
     \<lparr>idx := [IntKey 0, IntKey 1],
      int_rows := [(IntKey 0, 0), (IntKey 1, 1)],
      param_int_computed := [(''g'', ''2*x''), (''h'', ''g + x'')],
      attrs := map_of [(''x'', [Num 3, Num 5]),
                       (''g'', [Sym ''Line_g_0'', Sym ''Line_g_1'']),
                       (''h'', [Sym ''Line_h_0'', Sym ''Line_h_1''])]\<rparr>"

definition sympify_table :: "string \<Rightarrow> error + expr" where
  "sympify_table text =
     (case map_of [(''2*x'', App ''Mul'' [Num 2, Sym ''x'']),
                   (''g + x'', App ''Add'' [Sym ''g'', Sym ''x''])] text of
        None \<Rightarrow> Inl ValueError
      | Some e \<Rightarrow> Inr e)"

text \<open>
  A load device with three elements that imports the bus angle and magnitude under the
  names \<open>a\<close> and \<open>v\<close> through the key \<^verbatim>\<open>'Bus'\<close>, a class name and not one of its
  parameters; and the registry that holds the bus and the load.
\<close>

definition pq3 :: device where
  "pq3 = (DeviceBase_init ''PQ'' (\<lambda>name. None))
     \<lparr>idx := [IntKey 0, IntKey 1, IntKey 2],
      int_rows := [(IntKey 0, 0), (IntKey 1, 1), (IntKey 2, 2)],
      algeb_ext := [(''a'', (''Bus'', ''a'')), (''v'', (''Bus'', ''v''))]\<rparr>"

definition bus_pq_system :: system where
  "bus_pq_system = map_of [(''bus'', bus2), (''pq'', pq3)]"



text \<open>A bus device whose two elements are identified by name.\<close>

definition named_bus :: device where
  "named_bus = (DeviceBase_init ''Bus'' (\<lambda>name. None))
     \<lparr>idx := [StrKey ''north'', StrKey ''south''],
      int_rows := [(StrKey ''north'', 0), (StrKey ''south'', 1)]\<rparr>"

section \<open>Properties of the substitution operations\<close>

lemma set_symbol_occurrences: "set (symbol_occurrences e) = free_symbols e"
  by (induction e) auto

lemma valid_order_symbols_in_order: "valid_order symbols_in_order e"
  by (simp add: valid_order_def symbols_in_order_def set_symbol_occurrences)

lemma replace_symbols_cong:
  "(\<And>s. s \<in> free_symbols e \<Longrightarrow> \<sigma> s = \<tau> s) \<Longrightarrow> replace_symbols \<sigma> e = replace_symbols \<tau> e"
  by (induction e) auto

lemma replace_symbols_untouched:
  "free_symbols v \<inter> dom \<sigma> = {} \<Longrightarrow> replace_symbols \<sigma> v = v"
proof (induction v)
  case (App f args)
  have "map (replace_symbols \<sigma>) args = map (\<lambda>a. a) args"
  proof (rule map_cong[OF refl])
    fix a assume a: "a \<in> set args"
    with App.prems have "free_symbols a \<inter> dom \<sigma> = {}" by auto
    with a show "replace_symbols \<sigma> a = a" by (rule App.IH)
  qed
  then show ?case by simp
qed (auto split: option.splits)

lemma replace_after_subs1:
  assumes "\<sigma> k = None" and "free_symbols v \<inter> dom \<sigma> = {}"
  shows "replace_symbols \<sigma> (subs1 k v e) = replace_symbols (\<sigma>(k \<mapsto> v)) e"
  using assms by (induction e) (auto simp: replace_symbols_untouched)

lemma sympy_subs_Cons:
  "sympy_subs ((k, v) # pairs) e = sympy_subs pairs (subs1 k v e)"
  by (simp add: sympy_subs_def)

lemma sympy_subs_is_replace:
  assumes "distinct (map fst pairs)"
    and "\<forall>v\<in>snd ` set pairs. free_symbols v \<inter> fst ` set pairs = {}"
  shows "sympy_subs pairs e = replace_symbols (map_of pairs) e"
  using assms
proof (induction pairs arbitrary: e)
  case Nil
  have "replace_symbols (\<lambda>s. None) e = e"
    by (rule replace_symbols_untouched) simp
  then show ?case by (simp add: sympy_subs_def)
next
  case (Cons p pairs)
  obtain k v where p: "p = (k, v)" by (cases p)
  from Cons.prems p have d: "distinct (map fst pairs)" and k: "k \<notin> fst ` set pairs"
    by auto
  from Cons.prems p have fv: "free_symbols v \<inter> fst ` set pairs = {}"
    and rest: "\<forall>w\<in>snd ` set pairs. free_symbols w \<inter> fst ` set pairs = {}"
    by auto
  have none: "map_of pairs k = None" using k by (simp add: map_of_eq_None_iff)
  have dom: "free_symbols v \<inter> dom (map_of pairs) = {}" using fv by (simp add: dom_map_of_conv_image_fst)
  have "sympy_subs (p # pairs) e = sympy_subs pairs (subs1 k v e)"
    by (simp add: p sympy_subs_Cons)
  also have "\<dots> = replace_symbols (map_of pairs) (subs1 k v e)"
    using d rest by (rule Cons.IH)
  also have "\<dots> = replace_symbols ((map_of pairs)(k \<mapsto> v)) e"
    using none dom by (rule replace_after_subs1)
  finally show ?case unfolding p map_of.simps fst_conv snd_conv .
qed

lemma free_symbols_replace:
  "x \<in> free_symbols (replace_symbols \<sigma> e) \<Longrightarrow>
     (x \<in> free_symbols e \<and> \<sigma> x = None) \<or>
     (\<exists>s\<in>free_symbols e. \<exists>v. \<sigma> s = Some v \<and> x \<in> free_symbols v)"
proof (induction e)
  case (Num k)
  then show ?case by simp
next
  case (Sym s)
  then show ?case by (cases "\<sigma> s") auto
next
  case (App f args)
  then obtain a where a: "a \<in> set args" and x: "x \<in> free_symbols (replace_symbols \<sigma> a)"
    by auto
  from App.IH[OF a x] a show ?case by auto
qed


lemma quantity_lengths_all:
  "\<forall>s\<in>set fs. \<exists>xs. attrs dev s = Some xs \<and> length xs = m \<Longrightarrow>
     quantity_lengths dev fs = Inr (replicate (length fs) m)"
  by (induction fs) auto

lemma foldl_min_replicate: "foldl min (m::nat) (replicate k m) = m"
  by (induction k) auto

lemma py_min_replicate: "0 < k \<Longrightarrow> py_min (replicate k m) = Inr m"
  by (cases k) (auto simp: foldl_min_replicate)

lemma sym_list_at_all:
  "\<forall>s\<in>set fs. \<exists>xs. attrs dev s = Some xs \<and> length xs = m \<Longrightarrow> i < m \<Longrightarrow>
     sym_list_at dev i fs = Inr ([], map (\<lambda>s. (s, the (attrs dev s) ! i)) fs)"
  by (induction fs) auto

lemma expand_rows_all:
  "\<forall>i\<in>set is. sym_list_at dev i fs = Inr ([], P i) \<Longrightarrow>
     expand_rows dev fs e is = Inr ([], map (\<lambda>i. sympy_subs (P i) e) is)"
  by (induction "is") auto

section \<open>Vectorized expansion of a template\<close>

text \<open>
  Claim C1, amended. For a template with at least one free symbol, all of whose free
  symbols name per-element arrays of the device, each of length equal to the element
  count \<open>device_n dev\<close>, with concrete entries: vectorized expansion succeeds, writes
  no diagnostic, and returns exactly \<open>device_n dev\<close> equations; the \<open>i\<close>-th is the
  template with every free symbol replaced by the \<open>i\<close>-th entry of its array, and no
  quantity name of the device is free in it. This holds for every iteration order of the
  free symbols.
\<close>

theorem C1_vectorized_expansion:
  assumes ord: "valid_order ord e"
    and nonempty: "free_symbols e \<noteq> {}"
    and declared: "declared_per_element dev e"
    and concrete: "concrete_entries dev e"
  shows "\<exists>rows. subs_all_vectorized ord dev e = Inr ([], rows) \<and>
           length rows = device_n dev \<and>
           (\<forall>i<device_n dev.
              rows ! i = replace_symbols (\<lambda>s. map_option (\<lambda>xs. xs ! i) (attrs dev s)) e \<and>
              (\<forall>t\<in>free_symbols (rows ! i). attrs dev t = None))"
proof -
  define m where "m = device_n dev"
  define fs where "fs = ord e"
  define P where "P = (\<lambda>i. map (\<lambda>s. (s, the (attrs dev s) ! i)) fs)"
  define rows where "rows = map (\<lambda>i. sympy_subs (P i) e) [0..<m]"
  from ord have dist: "distinct fs" and fs: "set fs = free_symbols e"
    by (simp_all add: valid_order_def fs_def)
  from nonempty fs have len: "0 < length fs" by auto
  from declared fs have all: "\<forall>s\<in>set fs. \<exists>xs. attrs dev s = Some xs \<and> length xs = m"
    by (auto simp: m_def declared_per_element_def)
  have lens: "quantity_lengths dev fs = Inr (replicate (length fs) m)"
    using all by (rule quantity_lengths_all)
  have mn: "py_min (replicate (length fs) m) = Inr m"
    using len by (rule py_min_replicate)
  have "\<forall>i\<in>set [0..<m]. sym_list_at dev i fs = Inr ([], P i)"
    using sym_list_at_all[OF all] by (simp add: P_def)
  then have ex: "expand_rows dev fs e [0..<m] = Inr ([], rows)"
    unfolding rows_def by (rule expand_rows_all)
  have res: "subs_all_vectorized ord dev e = Inr ([], rows)"
    using lens mn ex by (simp add: subs_all_vectorized_def fs_def[symmetric])
  have row: "rows ! i = replace_symbols (\<lambda>s. map_option (\<lambda>xs. xs ! i) (attrs dev s)) e
        \<and> (\<forall>t\<in>free_symbols (rows ! i). attrs dev t = None)" if i: "i < m" for i
  proof -
    let ?\<sigma> = "\<lambda>s. map_option (\<lambda>xs. xs ! i) (attrs dev s)"
    have keys: "map fst (P i) = fs" by (simp add: P_def comp_def)
    have entry: "free_symbols (the (attrs dev s) ! i) \<inter> dom (attrs dev) = {}" if "s \<in> set fs" for s
    proof -
      from all that obtain xs where xs: "attrs dev s = Some xs" "length xs = m" by blast
      with i have "xs ! i \<in> set (entries dev s)" by (simp add: entries_def)
      with concrete that fs xs show ?thesis by (auto simp: concrete_entries_def)
    qed
    have vals: "\<forall>v\<in>snd ` set (P i). free_symbols v \<inter> fst ` set (P i) = {}"
    proof
      fix v assume "v \<in> snd ` set (P i)"
      then obtain s where s: "s \<in> set fs" and v: "v = the (attrs dev s) ! i"
        by (auto simp: P_def)
      have "fst ` set (P i) \<subseteq> dom (attrs dev)" using all by (auto simp: P_def)
      with entry[OF s] v show "free_symbols v \<inter> fst ` set (P i) = {}" by blast
    qed
    have "rows ! i = sympy_subs (P i) e" using i by (simp add: rows_def)
    also have "\<dots> = replace_symbols (map_of (P i)) e"
      using dist vals by (intro sympy_subs_is_replace) (simp_all add: keys)
    also have "\<dots> = replace_symbols ?\<sigma> e"
    proof (rule replace_symbols_cong)
      fix s assume "s \<in> free_symbols e"
      then have s: "s \<in> set fs" by (simp add: fs)
      from all s obtain xs where xs: "attrs dev s = Some xs" by blast
      have "map_of (P i) s = Some (the (attrs dev s) ! i)"
        unfolding P_def using s by (induction fs) auto
      then show "map_of (P i) s = ?\<sigma> s" by (simp add: xs)
    qed
    finally have eq: "rows ! i = replace_symbols ?\<sigma> e" .
    have "attrs dev x = None" if x: "x \<in> free_symbols (replace_symbols ?\<sigma> e)" for x
    proof (rule ccontr)
      assume "attrs dev x \<noteq> None"
      then have d: "x \<in> dom (attrs dev)" by auto
      from free_symbols_replace[OF x] show False
      proof
        assume "x \<in> free_symbols e \<and> ?\<sigma> x = None"
        with d show False by auto
      next
        assume "\<exists>s\<in>free_symbols e. \<exists>v. ?\<sigma> s = Some v \<and> x \<in> free_symbols v"
        then obtain s v where s: "s \<in> free_symbols e" and v: "?\<sigma> s = Some v" and xv: "x \<in> free_symbols v"
          by blast
        from s have "s \<in> set fs" by (simp add: fs)
        from entry[OF this] v xv d show False by auto
      qed
    qed
    with eq show ?thesis by simp
  qed
  have "length rows = m" by (simp add: rows_def)
  with res row show ?thesis unfolding m_def by blast
qed

theorem C1_vectorized_expansion_witness:
  "valid_order symbols_in_order v_minus_a \<and> free_symbols v_minus_a \<noteq> {} \<and>
   declared_per_element bus2 v_minus_a \<and> concrete_entries bus2 v_minus_a \<and>
   (\<exists>rows. subs_all_vectorized symbols_in_order bus2 v_minus_a = Inr ([], rows) \<and>
      length rows = 2 \<and>
      rows ! 1 = App ''Add'' [Sym ''Bus_v_1'', App ''Mul'' [Num (- 1), Sym ''Bus_a_1'']])"
proof -
  have h1: "valid_order symbols_in_order v_minus_a"
    by (rule valid_order_symbols_in_order)
  have h2: "free_symbols v_minus_a \<noteq> {}"
    by (simp add: v_minus_a_def)
  have h3: "declared_per_element bus2 v_minus_a"
    by (simp add: declared_per_element_def v_minus_a_def bus2_def device_n_def)
  have h4: "concrete_entries bus2 v_minus_a"
    by (simp add: concrete_entries_def entries_def v_minus_a_def bus2_def)
  have n: "device_n bus2 = 2"
    by (simp add: bus2_def device_n_def)
  from C1_vectorized_expansion[OF h1 h2 h3 h4] obtain rows where
    r: "subs_all_vectorized symbols_in_order bus2 v_minus_a = Inr ([], rows)"
      "length rows = device_n bus2"
      "rows ! 1 = replace_symbols (\<lambda>s. map_option (\<lambda>xs. xs ! 1) (attrs bus2 s)) v_minus_a"
    unfolding n by force
  have "rows ! 1 = App ''Add'' [Sym ''Bus_v_1'', App ''Mul'' [Num (- 1), Sym ''Bus_a_1'']]"
    unfolding r(3) by (simp add: v_minus_a_def bus2_def)
  with r n h1 h2 h3 h4 show ?thesis by simp
qed

text \<open>
  Claim C1 as stated fails for a template without free symbols: every free symbol of the
  constant \<open>1\<close> names a declared quantity, the device has two elements, and the expansion
  raises \<open>ValueError\<close> (\<^verbatim>\<open>min\<close> of the empty list) instead of returning two equations.
\<close>

theorem C1_constant_template_counterexample:
  "valid_order symbols_in_order (Num 1) \<and> declared_per_element bus2 (Num 1) \<and>
   concrete_entries bus2 (Num 1) \<and> device_n bus2 = 2 \<and>
   subs_all_vectorized symbols_in_order bus2 (Num 1) = Inl ValueError"
  by (simp add: valid_order_def symbols_in_order_def subs_all_vectorized_def bus2_def device_n_def
      declared_per_element_def concrete_entries_def)

text \<open>
  Why the entries must be concrete: \<^verbatim>\<open>subs\<close> without the flag works through the
  pairs one after the other. On the device whose array for \<open>x\<close> holds the symbol \<open>y\<close>,
  with \<open>x\<close> visited first, the \<open>y\<close> brought in by the first replacement is replaced by
  the second, and the row is \<^verbatim>\<open>1 + 1\<close> where replacing both symbols of the template
  at once gives \<^verbatim>\<open>y + 1\<close>.
\<close>

lemma vectorized_is_sequential_on_alias:
  "subs_all_vectorized symbols_in_order alias_dev x_plus_y = Inr ([], [App ''Add'' [Num 1, Num 1]]) \<and>
   replace_symbols (\<lambda>s. map_option (\<lambda>xs. xs ! 0) (attrs alias_dev s)) x_plus_y
     = App ''Add'' [Sym ''y'', Num 1]"
  by (simp add: subs_all_vectorized_def symbols_in_order_def alias_dev_def x_plus_y_def
      sympy_subs_def)

section \<open>Construction of generator devices\<close>

text \<open>
  Claim C9. For every system argument, the constructor of \<^verbatim>\<open>PV\<close> raises
  \<open>AttributeError\<close> at \<^verbatim>\<open>self._param_int_mandatory\<close>, an attribute that
  \<^verbatim>\<open>DeviceBase.__init__\<close> does not create and the class does not define; the
  constructor of \<^verbatim>\<open>Slack\<close>, which runs the one of \<^verbatim>\<open>PV\<close> first, raises the same
  error. No device of either class is returned.
\<close>

theorem C9_generator_constructors_fail:
  "new_PV sys = Inl (AttributeError ''PV'' ''_param_int_mandatory'') \<and>
   new_Slack sys = Inl (AttributeError ''Slack'' ''_param_int_mandatory'')"
  by (simp add: new_PV_def new_Slack_def Slack_init_def PV_init_def has_attribute_def
      DeviceBase_init_def init_attr_names_def class_attr_names_def Let_def)

theorem C9_generator_constructors_fail_witness:
  "new_PV bus_pq_system = Inl (AttributeError ''PV'' ''_param_int_mandatory'') \<and>
   new_Slack bus_pq_system = Inl (AttributeError ''Slack'' ''_param_int_mandatory'')"
  by (rule C9_generator_constructors_fail)

section \<open>A template that names a missing quantity\<close>






section \<open>Empty quantities in vectorized expansion\<close>

lemma quantity_lengths_Inr:
  "quantity_lengths dev fs = Inr lens \<Longrightarrow>
     lens = map (\<lambda>s. length (entries dev s)) fs \<and> (\<forall>s\<in>set fs. attrs dev s \<noteq> None)"
  by (induction fs arbitrary: lens) (auto simp: entries_def split: option.splits sum.splits)

lemma foldl_min_le: "foldl min (k::nat) ks \<le> k \<and> (\<forall>l\<in>set ks. foldl min k ks \<le> l)"
proof (induction ks arbitrary: k)
  case Nil
  then show ?case by simp
next
  case (Cons a ks)
  from Cons.IH[of "min k a"] show ?case by auto
qed

lemma py_min_le: "py_min lens = Inr n \<Longrightarrow> \<forall>l\<in>set lens. n \<le> l"
  using foldl_min_le by (cases lens) auto

lemma sym_list_at_no_skip:
  "\<forall>s\<in>set fs. attrs dev s \<noteq> None \<and> i < length (entries dev s) \<Longrightarrow>
     \<exists>pairs. sym_list_at dev i fs = Inr ([], pairs)"
  by (induction fs) (auto simp: entries_def)

lemma expand_rows_no_skip:
  "\<forall>i\<in>set is. \<exists>pairs. sym_list_at dev i fs = Inr ([], pairs) \<Longrightarrow>
     \<exists>rows. expand_rows dev fs e is = Inr ([], rows) \<and> length rows = length is"
  by (induction "is") auto

lemma vectorized_result:
  assumes "quantity_lengths dev (ord e) = Inr lens" and "py_min lens = Inr n"
  shows "\<exists>rows. subs_all_vectorized ord dev e = Inr ([], rows) \<and> length rows = n"
proof -
  from quantity_lengths_Inr[OF assms(1)] py_min_le[OF assms(2)]
  have "\<forall>s\<in>set (ord e). attrs dev s \<noteq> None \<and> n \<le> length (entries dev s)"
    by auto
  then have "\<forall>i\<in>set [0..<n]. \<forall>s\<in>set (ord e). attrs dev s \<noteq> None \<and> i < length (entries dev s)"
    by fastforce
  then have "\<forall>i\<in>set [0..<n]. \<exists>pairs. sym_list_at dev i (ord e) = Inr ([], pairs)"
    using sym_list_at_no_skip by blast
  from expand_rows_no_skip[OF this, of e] assms show ?thesis
    by (simp add: subs_all_vectorized_def)
qed

text \<open>
  The skip branch of the inner loop is dead: the loop runs \<open>n_element\<close> times, and
  \<open>n_element\<close> is at most the length of every referenced quantity, so no length is
  zero inside the loop and no diagnostic is ever written.
\<close>

lemma skip_branch_never_taken:
  assumes "subs_all_vectorized ord dev e = Inr (skipped, rows)"
  shows "skipped = []"
proof -
  from assms obtain lens n where l: "quantity_lengths dev (ord e) = Inr lens" and n: "py_min lens = Inr n"
    by (auto simp: subs_all_vectorized_def Let_def split: sum.splits)
  from vectorized_result[of dev ord e lens n, OF l n] assms show ?thesis by auto
qed

lemma quantity_lengths_present:
  "\<forall>t\<in>set fs. attrs dev t \<noteq> None \<Longrightarrow>
     quantity_lengths dev fs = Inr (map (\<lambda>s. length (entries dev s)) fs)"
  by (induction fs) (auto simp: entries_def)

text \<open>
  A referenced quantity whose array is empty makes \<open>n_element\<close> zero: the result is
  the empty list, whatever the other quantities hold.
\<close>

lemma empty_quantity_no_equations:
  assumes ord: "valid_order ord e" and decl: "all_declared dev e"
    and s: "s \<in> free_symbols e" and empty: "attrs dev s = Some []"
  shows "subs_all_vectorized ord dev e = Inr ([], [])"
proof -
  define lens where "lens = map (\<lambda>s. length (entries dev s)) (ord e)"
  from ord decl have "\<forall>t\<in>set (ord e). attrs dev t \<noteq> None"
    by (simp add: valid_order_def all_declared_def)
  then have l: "quantity_lengths dev (ord e) = Inr lens"
    unfolding lens_def by (rule quantity_lengths_present)
  from ord s have mem: "s \<in> set (ord e)" by (simp add: valid_order_def)
  then have zero: "0 \<in> set lens" using empty by (force simp: lens_def entries_def)
  then obtain k ks where "lens = k # ks" by (cases lens) auto
  then obtain n where n: "py_min lens = Inr n" by auto
  from py_min_le[OF n] zero have "n = 0" by auto
  with vectorized_result[of dev ord e lens n, OF l n] show ?thesis by auto
qed

text \<open>
  Claim C6 is what the skip branch of the source is written for, and the code misses it.
  The device has two elements; the quantity \<open>p\<close> is empty and \<open>a\<close> has two entries.
  Expanding \<^verbatim>\<open>a + p\<close> returns no equation at all and writes no diagnostic, where the
  claim promises one equation per element built from \<open>a\<close>.
\<close>

theorem C6_empty_quantity_yields_no_equation:
  "device_n bus2_empty_p = 2 \<and> attrs bus2_empty_p ''p'' = Some [] \<and>
   attrs bus2_empty_p ''a'' = Some [Sym ''Bus_a_0'', Sym ''Bus_a_1''] \<and>
   subs_all_vectorized symbols_in_order bus2_empty_p a_plus_p = Inr ([], [])"
  by (simp add: subs_all_vectorized_def symbols_in_order_def bus2_empty_p_def bus2_def a_plus_p_def
      device_n_def)


section \<open>Singleton expansion is simultaneous\<close>

text \<open>
  The dummies of a call are new: longer than every name of the template and every old
  symbol, and different from each other.
\<close>

lemma foldr_max_ge: "(b::nat) \<le> foldr max ns b"
  by (induction ns) auto

lemma foldr_max_mem: "n \<in> set ns \<Longrightarrow> (n::nat) \<le> foldr max ns b"
  by (induction ns) (auto simp: max.coboundedI2)

lemma longest_name_bound: "s \<in> free_symbols e \<Longrightarrow> length s \<le> longest_name e"
proof (induction e)
  case (App f args)
  then obtain a where a: "a \<in> set args" and s: "s \<in> free_symbols a" by auto
  from App.IH[OF a s] have "length s \<le> longest_name a" .
  also have "\<dots> \<le> foldr max (map longest_name args) 0"
    using a by (intro foldr_max_mem) simp
  finally show ?case by simp
qed simp_all

lemma name_bound_template: "s \<in> free_symbols e \<Longrightarrow> length s \<le> name_bound pairs e"
  using longest_name_bound[of s e] foldr_max_ge[of "longest_name e"]
  by (metis name_bound_def order_trans)

lemma name_bound_key: "old \<in> fst ` set pairs \<Longrightarrow> length old \<le> name_bound pairs e"
proof -
  assume "old \<in> fst ` set pairs"
  then obtain new where p: "(old, new) \<in> set pairs" by auto
  then have "max (length old) (longest_name new)
               \<in> set (map (\<lambda>(old, new). max (length old) (longest_name new)) pairs)"
    by force
  from foldr_max_mem[OF this] show ?thesis
    unfolding name_bound_def by (meson max.boundedE)
qed

lemma dummy_symbols_length: "length (dummy_symbols pairs e) = length pairs"
  by (simp add: dummy_symbols_def)

lemma dummy_symbols_long: "d \<in> set (dummy_symbols pairs e) \<Longrightarrow> name_bound pairs e < length d"
  by (auto simp: dummy_symbols_def)

lemma dummy_symbols_distinct: "distinct (dummy_symbols pairs e)"
proof -
  have "inj_on (\<lambda>i. replicate (Suc (name_bound pairs e + i)) (CHR ''_'')) (set [0..<length pairs])"
    by (rule inj_onI) (metis add_left_cancel length_replicate nat.inject)
  then show ?thesis by (simp add: dummy_symbols_def distinct_map)
qed

lemma dummy_symbols_fresh:
  assumes "d \<in> set (dummy_symbols pairs e)"
  shows "d \<notin> free_symbols e" and "d \<notin> fst ` set pairs"
  using dummy_symbols_long[OF assms] name_bound_template[of d e pairs] name_bound_key[of d pairs e]
  by auto

lemma two_passes:
  assumes "distinct keys" and "distinct ds"
    and "length ds = length keys" and "length vals = length keys"
    and "set ds \<inter> free_symbols e = {}"
  shows "replace_symbols (map_of (zip ds vals)) (replace_symbols (map_of (zip keys (map Sym ds))) e)
           = replace_symbols (map_of (zip keys vals)) e"
  using assms(5)
proof (induction e)
  case (Num k)
  show ?case by simp
next
  case (Sym s)
  show ?case
  proof (cases "s \<in> set keys")
    case True
    then obtain i where i: "i < length keys" and s: "s = keys ! i"
      by (auto simp: in_set_conv_nth)
    have "map_of (zip keys (map Sym ds)) s = Some (Sym (ds ! i))"
      unfolding s using assms(1,3) i by (simp add: map_of_zip_nth)
    moreover have "map_of (zip ds vals) (ds ! i) = Some (vals ! i)"
      using assms(2,3,4) i by (simp add: map_of_zip_nth)
    moreover have "map_of (zip keys vals) s = Some (vals ! i)"
      unfolding s using assms(1,4) i by (simp add: map_of_zip_nth)
    ultimately show ?thesis by simp
  next
    case False
    then have "map_of (zip keys (map Sym ds)) s = None" "map_of (zip keys vals) s = None"
      using assms(3,4) by (simp_all add: map_of_zip_is_None)
    moreover from Sym.prems have "s \<notin> set ds" by auto
    then have "map_of (zip ds vals) s = None"
      using assms(3,4) by (simp add: map_of_zip_is_None)
    ultimately show ?thesis by simp
  qed
next
  case (App f args)
  have "map (replace_symbols (map_of (zip ds vals)) \<circ> replace_symbols (map_of (zip keys (map Sym ds)))) args
          = map (replace_symbols (map_of (zip keys vals))) args"
  proof (rule map_cong[OF refl])
    fix a assume a: "a \<in> set args"
    with App.prems have "set ds \<inter> free_symbols a = {}" by auto
    from App.IH[OF a this]
    show "(replace_symbols (map_of (zip ds vals)) \<circ> replace_symbols (map_of (zip keys (map Sym ds)))) a
            = replace_symbols (map_of (zip keys vals)) a"
      by simp
  qed
  then show ?case by simp
qed

text \<open>
  The two passes of the library amount to replacing all the old symbols at once: the
  dummies keep the values that are put in apart from the symbols still to be replaced.
\<close>

lemma simultaneous_is_replace:
  assumes seq: "sympify_sequence sequence = Inr pairs" and keys: "distinct (map fst pairs)"
  shows "sympy_subs_simultaneous evaluate sequence e = evaluate (replace_symbols (map_of pairs) e)"
proof -
  define ds where "ds = dummy_symbols pairs e"
  define renaming where "renaming = zip (map fst pairs) (map Sym ds)"
  have len: "length ds = length (map fst pairs)" by (simp add: ds_def dummy_symbols_length)
  have dist: "distinct ds" unfolding ds_def by (rule dummy_symbols_distinct)
  have fresh: "set ds \<inter> free_symbols e = {}" and nokey: "set ds \<inter> fst ` set pairs = {}"
    using dummy_symbols_fresh[of _ pairs e] by (auto simp: ds_def)
  have rk: "map fst renaming = map fst pairs" using len by (simp add: renaming_def)
  have rv: "snd ` set renaming \<subseteq> Sym ` set ds"
    by (auto simp: renaming_def dest: set_zip_rightD)
  have "\<forall>v\<in>snd ` set renaming. free_symbols v \<inter> fst ` set renaming = {}"
  proof
    fix v assume "v \<in> snd ` set renaming"
    with rv obtain d where d: "d \<in> set ds" "v = Sym d" by auto
    have "fst ` set renaming = fst ` set pairs"
      using rk by (metis list.set_map)
    with d nokey show "free_symbols v \<inter> fst ` set renaming = {}" by auto
  qed
  with keys rk have first: "sympy_subs renaming e = replace_symbols (map_of renaming) e"
    by (intro sympy_subs_is_replace) simp_all
  have "xreplace (zip ds (map snd pairs)) (sympy_subs renaming e)
          = xreplace (zip ds (map snd pairs)) (replace_symbols (map_of renaming) e)"
    by (simp only: first)
  also have "\<dots> = replace_symbols (map_of (zip (map fst pairs) (map snd pairs))) e"
    unfolding xreplace_def renaming_def
    using keys dist len fresh by (intro two_passes) simp_all
  also have "zip (map fst pairs) (map snd pairs) = pairs" by (simp add: zip_map_fst_snd)
  finally show ?thesis
    using seq by (simp add: sympy_subs_simultaneous_def Let_def ds_def renaming_def)
qed

lemma sym_list_whole_present:
  "\<forall>t\<in>set fs. attrs dev t \<noteq> None \<Longrightarrow>
     sym_list_whole dev fs = Inr (map (\<lambda>s. (s, whole_entry dev s (the (attrs dev s)))) fs)"
  by (induction fs) auto

lemma sympify_sequence_arrays:
  "\<forall>t\<in>set fs. t \<notin> py_list_entries dev \<Longrightarrow>
     sympify_sequence (map (\<lambda>s. (s, whole_entry dev s (the (attrs dev s)))) fs)
       = Inr (map (\<lambda>s. (s, Array (the (attrs dev s)))) fs)"
  by (induction fs) (auto simp: whole_entry_def)

lemma sympify_sequence_list:
  "\<exists>t\<in>set fs. t \<in> py_list_entries dev \<Longrightarrow>
     sympify_sequence (map (\<lambda>s. (s, whole_entry dev s (the (attrs dev s)))) fs) = Inl SympifyError"
proof (induction fs)
  case Nil
  then show ?case by simp
next
  case (Cons a fs)
  show ?case
  proof (cases "a \<in> py_list_entries dev")
    case True
    then show ?thesis by (simp add: whole_entry_def)
  next
    case False
    with Cons.prems have "\<exists>t\<in>set fs. t \<in> py_list_entries dev" by auto
    from Cons.IH[OF this] False show ?thesis by (simp add: whole_entry_def)
  qed
qed

lemma map_of_whole:
  "s \<in> set fs \<Longrightarrow> map_of (map (\<lambda>s. (s, f s)) fs) s = Some (f s)"
  by (induction fs) auto

text \<open>
  Claim C7. When every free symbol of the template is declared, the outcome of singleton
  expansion is fixed by the template with each free symbol replaced by the whole array
  of its quantity, all at once: the arrays are put in as they are, and a symbol inside
  an array is not replaced again, also when it is itself a free symbol of the template.
  The library builds that term (which may raise), and the call returns what it built,
  in the return type asked for. The outcome does not depend on the iteration order. If
  one of the symbols names a Python list, the library refuses the list with
  \<open>SympifyError\<close> before anything is replaced.
\<close>

theorem C7_singleton_simultaneous:
  assumes ord: "valid_order ord e" and decl: "all_declared dev e"
  shows "subs_all_singleton evaluate ord dev e ret_as =
           (if \<exists>s\<in>free_symbols e. s \<in> py_list_entries dev then Inl SympifyError
            else case evaluate (replace_symbols (\<lambda>s. map_option Array (attrs dev s)) e) of
                   Inl er \<Rightarrow> Inl er
                 | Inr ret \<Rightarrow> return_singleton ret_as ret)"
proof -
  let ?seq = "map (\<lambda>s. (s, whole_entry dev s (the (attrs dev s)))) (ord e)"
  let ?pairs = "map (\<lambda>s. (s, Array (the (attrs dev s)))) (ord e)"
  from ord have dist: "distinct (ord e)" and fs: "set (ord e) = free_symbols e"
    by (simp_all add: valid_order_def)
  from decl fs have present: "\<forall>t\<in>set (ord e). attrs dev t \<noteq> None"
    by (simp add: all_declared_def)
  then have whole: "sym_list_whole dev (ord e) = Inr ?seq"
    by (rule sym_list_whole_present)
  show ?thesis
  proof (cases "\<exists>s\<in>free_symbols e. s \<in> py_list_entries dev")
    case True
    with fs have "\<exists>t\<in>set (ord e). t \<in> py_list_entries dev" by simp
    then have "sympify_sequence ?seq = Inl SympifyError" by (rule sympify_sequence_list)
    with whole True show ?thesis
      by (simp add: subs_all_singleton_def sympy_subs_simultaneous_def)
  next
    case False
    with fs have "\<forall>t\<in>set (ord e). t \<notin> py_list_entries dev" by simp
    then have seq: "sympify_sequence ?seq = Inr ?pairs" by (rule sympify_sequence_arrays)
    have keys: "distinct (map fst ?pairs)" using dist by (simp add: comp_def)
    have same: "replace_symbols (map_of ?pairs) e
                  = replace_symbols (\<lambda>s. map_option Array (attrs dev s)) e"
    proof (rule replace_symbols_cong)
      fix s assume "s \<in> free_symbols e"
      with fs have s: "s \<in> set (ord e)" by simp
      with present obtain xs where "attrs dev s = Some xs" by auto
      with map_of_whole[OF s, of "\<lambda>s. Array (the (attrs dev s))"]
      show "map_of ?pairs s = map_option Array (attrs dev s)" by simp
    qed
    from simultaneous_is_replace[OF seq keys, of evaluate e] same whole False
    show ?thesis by (simp add: subs_all_singleton_def)
  qed
qed

text \<open>
  The witness is the aliasing case: the array of \<open>x\<close> holds the symbol \<open>y\<close>, which
  stays as it is in the result. The same call raises what the library raises when it
  refuses the term, and \<open>SympifyError\<close> when \<open>y\<close> names a Python list.
\<close>

theorem C7_singleton_simultaneous_witness:
  "valid_order symbols_in_order x_plus_y \<and> all_declared alias_dev x_plus_y \<and>
   subs_all_singleton Inr symbols_in_order alias_dev x_plus_y RNone =
     Inr (Single (App ''Add'' [Array [Sym ''y''], Array [Num 1]])) \<and>
   subs_all_singleton (\<lambda>t. Inl TypeError) symbols_in_order alias_dev x_plus_y RNone = Inl TypeError \<and>
   all_declared (alias_dev\<lparr>py_list_entries := {''y''}\<rparr>) x_plus_y \<and>
   subs_all_singleton Inr symbols_in_order (alias_dev\<lparr>py_list_entries := {''y''}\<rparr>) x_plus_y RNone
     = Inl SympifyError"
proof -
  have h1: "valid_order symbols_in_order x_plus_y" by (rule valid_order_symbols_in_order)
  have h2: "all_declared alias_dev x_plus_y"
    by (simp add: all_declared_def x_plus_y_def alias_dev_def)
  have h3: "all_declared (alias_dev\<lparr>py_list_entries := {''y''}\<rparr>) x_plus_y"
    by (simp add: all_declared_def x_plus_y_def alias_dev_def)
  have arrays: "\<not> (\<exists>s\<in>free_symbols x_plus_y. s \<in> py_list_entries alias_dev)"
    by (simp add: x_plus_y_def alias_dev_def DeviceBase_init_def)
  have list: "\<exists>s\<in>free_symbols x_plus_y. s \<in> py_list_entries (alias_dev\<lparr>py_list_entries := {''y''}\<rparr>)"
    by (simp add: x_plus_y_def)
  have r: "replace_symbols (\<lambda>s. map_option Array (attrs alias_dev s)) x_plus_y =
          App ''Add'' [Array [Sym ''y''], Array [Num 1]]"
    by (simp add: x_plus_y_def alias_dev_def)
  have a: "subs_all_singleton Inr symbols_in_order alias_dev x_plus_y RNone =
     Inr (Single (App ''Add'' [Array [Sym ''y''], Array [Num 1]]))"
    using C7_singleton_simultaneous[OF h1 h2, of Inr RNone] arrays r by simp
  have b: "subs_all_singleton (\<lambda>t. Inl TypeError) symbols_in_order alias_dev x_plus_y RNone = Inl TypeError"
    using C7_singleton_simultaneous[OF h1 h2, of "\<lambda>t. Inl TypeError" RNone] arrays by simp
  have c: "subs_all_singleton Inr symbols_in_order (alias_dev\<lparr>py_list_entries := {''y''}\<rparr>) x_plus_y RNone
     = Inl SympifyError"
    using C7_singleton_simultaneous[OF h1 h3, of Inr RNone] list by simp
  from h1 h2 h3 a b c show ?thesis by simp
qed

text \<open>
  On the same input the sequential \<^verbatim>\<open>subs\<close> replaces the \<open>y\<close> that the first
  replacement brought in; the flag \<^verbatim>\<open>simultaneous=True\<close> is what prevents it.
\<close>

lemma sequential_differs_on_alias:
  "sympy_subs [(''x'', Array [Sym ''y'']), (''y'', Array [Num 1])] x_plus_y =
     App ''Add'' [Array [Array [Num 1]], Array [Num 1]]"
  by (simp add: sympy_subs_def x_plus_y_def Array_def)

section \<open>External identifiers to row indices\<close>

lemma idx2int_all_known:
  "\<forall>k\<in>set ks. k \<in> fst ` set (int_rows dev) \<Longrightarrow>
     idx2int dev ks = Inr (map (row_of dev) ks)"
proof (induction ks)
  case Nil
  then show ?case by simp
next
  case (Cons k ks)
  then have "map_of (int_rows dev) k \<noteq> None" by (simp add: map_of_eq_None_iff)
  then obtain r where "map_of (int_rows dev) k = Some r" by auto
  with Cons show ?case by (simp add: row_of_def)
qed

lemma idx2int_first_unknown:
  "find (\<lambda>k. k \<notin> fst ` set (int_rows dev)) ks = Some k \<Longrightarrow>
     idx2int dev ks = Inl (KeyError k)"
proof (induction ks)
  case Nil
  then show ?case by simp
next
  case (Cons j ks)
  show ?case
  proof (cases "j \<in> fst ` set (int_rows dev)")
    case True
    then have "map_of (int_rows dev) j \<noteq> None" by (simp add: map_of_eq_None_iff)
    then obtain r where "map_of (int_rows dev) j = Some r" by auto
    with True Cons show ?thesis by simp
  next
    case False
    then have "map_of (int_rows dev) j = None" by (simp add: map_of_eq_None_iff)
    with False Cons.prems show ?thesis by simp
  qed
qed

text \<open>
  Claim C5. For every device and every list of external identifiers, of whatever kind:
  when all of them are keys of the idx-to-int mapping, \<open>idx2int\<close> returns the list of
  the rows that the mapping gives them, in order; when one of them was never added, it
  raises \<open>KeyError\<close> carrying the first such identifier, and returns no row for it
  (there is no default).
\<close>

theorem C5_idx2int:
  "((\<forall>k\<in>set ks. k \<in> fst ` set (int_rows dev)) \<longrightarrow>
      idx2int dev ks = Inr (map (row_of dev) ks) \<and>
      (\<forall>j<length ks. map_of (int_rows dev) (ks ! j) = Some (row_of dev (ks ! j)))) \<and>
   ((\<exists>k\<in>set ks. k \<notin> fst ` set (int_rows dev)) \<longrightarrow>
      (\<exists>k\<in>set ks. k \<notin> fst ` set (int_rows dev) \<and>
         find (\<lambda>k. k \<notin> fst ` set (int_rows dev)) ks = Some k \<and>
         idx2int dev ks = Inl (KeyError k)))"
proof (intro conjI impI)
  assume known: "\<forall>k\<in>set ks. k \<in> fst ` set (int_rows dev)"
  then show "idx2int dev ks = Inr (map (row_of dev) ks)"
    by (rule idx2int_all_known)
  show "\<forall>j<length ks. map_of (int_rows dev) (ks ! j) = Some (row_of dev (ks ! j))"
  proof (intro allI impI)
    fix j assume "j < length ks"
    with known have "ks ! j \<in> fst ` set (int_rows dev)" by simp
    then have "map_of (int_rows dev) (ks ! j) \<noteq> None" by (simp add: map_of_eq_None_iff)
    then show "map_of (int_rows dev) (ks ! j) = Some (row_of dev (ks ! j))"
      by (auto simp: row_of_def)
  qed
next
  assume "\<exists>k\<in>set ks. k \<notin> fst ` set (int_rows dev)"
  then have "find (\<lambda>k. k \<notin> fst ` set (int_rows dev)) ks \<noteq> None"
    by (auto simp: find_None_iff)
  then obtain k where k: "find (\<lambda>k. k \<notin> fst ` set (int_rows dev)) ks = Some k" by auto
  then have "k \<in> set ks" "k \<notin> fst ` set (int_rows dev)"
    by (auto simp: find_Some_iff)
  with k idx2int_first_unknown[OF k] show
    "\<exists>k\<in>set ks. k \<notin> fst ` set (int_rows dev) \<and>
       find (\<lambda>k. k \<notin> fst ` set (int_rows dev)) ks = Some k \<and>
       idx2int dev ks = Inl (KeyError k)"
    by blast
qed

text \<open>
  The witness: identifiers that are known, an integer that was never added, a name on a
  device whose identifiers are integers, and a device whose identifiers are names.
\<close>

theorem C5_idx2int_witness:
  "idx2int bus2 [IntKey 1, IntKey 0, IntKey 1] = Inr [1, 0, 1] \<and>
   idx2int bus2 [IntKey 0, IntKey 99, IntKey 1] = Inl (KeyError (IntKey 99)) \<and>
   idx2int bus2 [IntKey 0, StrKey ''Bus 1''] = Inl (KeyError (StrKey ''Bus 1'')) \<and>
   idx2int named_bus [StrKey ''south'', StrKey ''north''] = Inr [1, 0]"
proof -
  have known: "\<forall>k\<in>set [IntKey 1, IntKey 0, IntKey 1]. k \<in> fst ` set (int_rows bus2)"
    by (simp add: bus2_def)
  have unknown: "\<exists>k\<in>set [IntKey 0, IntKey 99, IntKey 1]. k \<notin> fst ` set (int_rows bus2)"
    by (simp add: bus2_def)
  have other: "\<exists>k\<in>set [IntKey 0, StrKey ''Bus 1'']. k \<notin> fst ` set (int_rows bus2)"
    by (simp add: bus2_def)
  have names: "\<forall>k\<in>set [StrKey ''south'', StrKey ''north'']. k \<in> fst ` set (int_rows named_bus)"
    by (simp add: named_bus_def)
  from C5_idx2int[of "[IntKey 1, IntKey 0, IntKey 1]" bus2] known
  have "idx2int bus2 [IntKey 1, IntKey 0, IntKey 1] = Inr (map (row_of bus2) [IntKey 1, IntKey 0, IntKey 1])"
    by blast
  then have a: "idx2int bus2 [IntKey 1, IntKey 0, IntKey 1] = Inr [1, 0, 1]"
    by (simp add: bus2_def row_of_def)
  from C5_idx2int[of "[IntKey 0, IntKey 99, IntKey 1]" bus2] unknown
  obtain k where "find (\<lambda>k. k \<notin> fst ` set (int_rows bus2)) [IntKey 0, IntKey 99, IntKey 1] = Some k"
    and e: "idx2int bus2 [IntKey 0, IntKey 99, IntKey 1] = Inl (KeyError k)"
    by blast
  then have b: "idx2int bus2 [IntKey 0, IntKey 99, IntKey 1] = Inl (KeyError (IntKey 99))"
    by (simp add: bus2_def)
  from C5_idx2int[of "[IntKey 0, StrKey ''Bus 1'']" bus2] other
  obtain k where "find (\<lambda>k. k \<notin> fst ` set (int_rows bus2)) [IntKey 0, StrKey ''Bus 1''] = Some k"
    and e: "idx2int bus2 [IntKey 0, StrKey ''Bus 1''] = Inl (KeyError k)"
    by blast
  then have c: "idx2int bus2 [IntKey 0, StrKey ''Bus 1''] = Inl (KeyError (StrKey ''Bus 1''))"
    by (simp add: bus2_def)
  from C5_idx2int[of "[StrKey ''south'', StrKey ''north'']" named_bus] names
  have "idx2int named_bus [StrKey ''south'', StrKey ''north'']
          = Inr (map (row_of named_bus) [StrKey ''south'', StrKey ''north''])"
    by blast
  then have d: "idx2int named_bus [StrKey ''south'', StrKey ''north''] = Inr [1, 0]"
    by (simp add: named_bus_def row_of_def)
  from a b c d show ?thesis by simp
qed

section \<open>The equation-count check\<close>

text \<open>
  Claim C3, amended. With the flag \<^verbatim>\<open>no_algeb_ext_check\<close> present, the check
  succeeds exactly when both conditions hold: the counts of \<^verbatim>\<open>_algeb_ext\<close> and
  \<^verbatim>\<open>_gcall_ext\<close> are equal or the flag exempts the device, and the count of
  \<^verbatim>\<open>_gcall_int\<close> is at least the number of internal variables minus the number of
  interface variables. Otherwise it raises \<open>AssertionError\<close> with one of two fixed
  messages that start with the class name and do not mention the shortfall.
\<close>

theorem C3_metadata_check:
  assumes flag: "map_of (special_flags dev) ''no_algeb_ext_check'' = Some exempt"
  shows "(metadata_check dev = Inr () \<longleftrightarrow>
            (exempt \<or> dict_len (algeb_ext dev) = dict_len (gcall_ext dev)) \<and>
            int (length (algeb_int dev)) - int (length (algeb_intf dev))
              \<le> int (dict_len (gcall_int dev))) \<and>
         (\<not> exempt \<and> dict_len (algeb_ext dev) \<noteq> dict_len (gcall_ext dev) \<longrightarrow>
            metadata_check dev =
              Inl (AssertionError (class_name dev @ '' Number of _algeb_ext does not equal _gcall_ext''))) \<and>
         ((exempt \<or> dict_len (algeb_ext dev) = dict_len (gcall_ext dev)) \<and>
          int (dict_len (gcall_int dev))
            < int (length (algeb_int dev)) - int (length (algeb_intf dev)) \<longrightarrow>
            metadata_check dev =
              Inl (AssertionError (class_name dev @ '' Too few gcall_int equations'')))"
  using flag by (auto simp: metadata_check_def check_number_of_algeb_equations_def)

theorem C3_metadata_check_witness:
  "map_of (special_flags bus2) ''no_algeb_ext_check'' = Some False \<and>
   metadata_check bus2 = Inr () \<and>
   map_of (special_flags gen_one_var) ''no_algeb_ext_check'' = Some False \<and>
   metadata_check gen_one_var = Inl (AssertionError ''PV Too few gcall_int equations'')"
proof -
  have f1: "map_of (special_flags bus2) ''no_algeb_ext_check'' = Some False"
    by (simp add: bus2_def DeviceBase_init_def)
  have f2: "map_of (special_flags gen_one_var) ''no_algeb_ext_check'' = Some False"
    by (simp add: gen_one_var_def DeviceBase_init_def)
  have "metadata_check bus2 = Inr ()"
    using C3_metadata_check[OF f1] by (simp add: bus2_def DeviceBase_init_def dict_len_def)
  moreover have "metadata_check gen_one_var = Inl (AssertionError ''PV Too few gcall_int equations'')"
    using C3_metadata_check[OF f2] by (simp add: gen_one_var_def DeviceBase_init_def dict_len_def)
  ultimately show ?thesis using f1 f2 by simp
qed

text \<open>
  Claim C3 as stated lets one of the two conditions suffice. The device below has equal
  counts of imported variables and external equations (both zero), and the check fails
  all the same, for lack of a local equation. A device whose shortfall is two raises
  the very same error as one whose shortfall is one.
\<close>

theorem C3_either_or_counterexample:
  "dict_len (algeb_ext gen_one_var) = dict_len (gcall_ext gen_one_var) \<and>
   metadata_check gen_one_var = Inl (AssertionError ''PV Too few gcall_int equations'') \<and>
   int (length (algeb_int gen_one_var)) - int (length (algeb_intf gen_one_var))
     - int (dict_len (gcall_int gen_one_var)) = 1 \<and>
   int (length (algeb_int gen_two_vars)) - int (length (algeb_intf gen_two_vars))
     - int (dict_len (gcall_int gen_two_vars)) = 2 \<and>
   metadata_check gen_two_vars = metadata_check gen_one_var"
  by (simp add: metadata_check_def check_number_of_algeb_equations_def gen_one_var_def
      gen_two_vars_def DeviceBase_init_def dict_len_def)

section \<open>Delayed substitution leaves stored equations alone\<close>

lemma update_new_key:
  "k \<notin> fst ` set al \<Longrightarrow> AList.update k v al = al @ [(k, v)]"
  by (induction al) auto

lemma delayed_loop_extends:
  "\<exists>added. fst (delayed_symbol_sub_loop evaluate ord dev st ot False items out) = out @ added"
proof (induction items arbitrary: out)
  case Nil
  then show ?case by simp
next
  case (Cons item items)
  obtain var eq where item: "item = (var, eq)" by (cases item)
  show ?case
  proof (cases "var \<in> set (map fst out)")
    case True
    with Cons.IH[of out] show ?thesis by (simp add: item)
  next
    case False
    then have upd: "AList.update var v out = out @ [(var, v)]" for v
      by (intro update_new_key) simp
    from Cons.IH[of out] obtain a0 where a0:
      "fst (delayed_symbol_sub_loop evaluate ord dev st ot False items out) = out @ a0" by blast
    have step: "\<exists>added. fst (delayed_symbol_sub_loop evaluate ord dev st ot False items
                    (AList.update var v out)) = out @ added" for v
    proof -
      from Cons.IH[of "AList.update var v out"] obtain a where
        "fst (delayed_symbol_sub_loop evaluate ord dev st ot False items (AList.update var v out))
           = AList.update var v out @ a" by blast
      then show ?thesis by (simp add: upd)
    qed
    show ?thesis
      using False a0 step
      by (auto simp: item split: sum.splits prod.splits)
  qed
qed

lemma delayed_loop_idempotent:
  "delayed_symbol_sub_loop evaluate ord dev st ot False items out = (out1, r) \<Longrightarrow>
     delayed_symbol_sub_loop evaluate ord dev st ot False items out1 = (out1, r)"
proof (induction items arbitrary: out)
  case Nil
  then show ?case by simp
next
  case (Cons item items)
  obtain var eq where item: "item = (var, eq)" by (cases item)
  from delayed_loop_extends[of evaluate ord dev st ot "item # items" out] Cons.prems
  obtain added where ext: "out1 = out @ added" by auto
  show ?case
  proof (cases "var \<in> set (map fst out)")
    case True
    with Cons.prems have "delayed_symbol_sub_loop evaluate ord dev st ot False items out = (out1, r)"
      by (simp add: item)
    from Cons.IH[OF this] True ext show ?thesis by (simp add: item)
  next
    case False
    note new = this
    have stored: "delayed_symbol_sub_loop evaluate ord dev st ot False (item # items) out1 = (out1, r)"
      if rest: "delayed_symbol_sub_loop evaluate ord dev st ot False items (AList.update var v out) = (out1, r)"
      for v
    proof -
      from delayed_loop_extends[of evaluate ord dev st ot items "AList.update var v out"] rest
      obtain a where "out1 = AList.update var v out @ a" by auto
      with new have "var \<in> set (map fst out1)"
        by (simp add: update_new_key)
      with Cons.IH[OF rest] show ?thesis by (simp add: item)
    qed
    show ?thesis
    proof (cases "st = ''vectorized''")
      case True
      show ?thesis
      proof (cases "subs_all_vectorized ord dev eq")
        case (Inl er)
        with Cons.prems new True show ?thesis by (simp add: item)
      next
        case (Inr res)
        obtain skipped ret where res: "res = (skipped, ret)" by (cases res)
        show ?thesis
        proof (cases "return_vectorized ot ret")
          case (Inl er)
          with Cons.prems new True Inr res show ?thesis by (simp add: item)
        next
          case (Inr v)
          with Cons.prems new True \<open>subs_all_vectorized ord dev eq = Inr res\<close> res
          have "delayed_symbol_sub_loop evaluate ord dev st ot False items (AList.update var v out) = (out1, r)"
            by (simp add: item)
          then show ?thesis by (rule stored)
        qed
      qed
    next
      case False
      note nv = this
      show ?thesis
      proof (cases "st = ''singleton''")
        case True
        show ?thesis
        proof (cases "subs_all_singleton evaluate ord dev eq ot")
          case (Inl er)
          with Cons.prems new nv True show ?thesis by (simp add: item)
        next
          case (Inr v)
          with Cons.prems new nv True
          have "delayed_symbol_sub_loop evaluate ord dev st ot False items (AList.update var v out) = (out1, r)"
            by (simp add: item)
          then show ?thesis by (rule stored)
        qed
      next
        case False
        with Cons.prems new nv have rest: "delayed_symbol_sub_loop evaluate ord dev st ot False items out = (out1, r)"
          by (simp add: item)
        from Cons.IH[OF rest] nv False show ?thesis by (simp add: item)
      qed
    qed
  qed
qed

lemma map_of_append_left:
  "k \<in> set (map fst out) \<Longrightarrow> map_of (out @ added) k = map_of out k"
  by (induction out) auto

text \<open>
  Claim C10. With \<^verbatim>\<open>update=False\<close>, \<^verbatim>\<open>delayed_symbol_sub\<close> only appends to the
  output dictionary: every key that was present keeps its value (and its position). And
  the call is idempotent: run again with the same arguments on the dictionary it
  produced, on the same device, it leaves that dictionary as it is and ends the same
  way. This holds for every input and both substitution types, also when an expansion
  raises.
\<close>

theorem C10_delayed_symbol_sub_idempotent:
  "\<exists>out1 r added.
     delayed_symbol_sub evaluate ord dev in_dict out_dict subs_type output_type False = (out1, r) \<and>
     out1 = out_dict @ added \<and>
     (\<forall>k\<in>set (map fst out_dict). map_of out1 k = map_of out_dict k) \<and>
     delayed_symbol_sub evaluate ord dev in_dict out1 subs_type output_type False = (out1, r)"
proof (cases "subs_type \<in> {''vectorized'', ''singleton''}")
  case False
  then show ?thesis by (simp add: delayed_symbol_sub_def)
next
  case True
  obtain out1 r where res:
    "delayed_symbol_sub_loop evaluate ord dev subs_type output_type False in_dict out_dict = (out1, r)"
    by (cases "delayed_symbol_sub_loop evaluate ord dev subs_type output_type False in_dict out_dict")
  from delayed_loop_extends[of evaluate ord dev subs_type output_type in_dict out_dict] res
  obtain added where ext: "out1 = out_dict @ added" by auto
  have same: "\<forall>k\<in>set (map fst out_dict). map_of out1 k = map_of out_dict k"
    unfolding ext using map_of_append_left by fast
  from delayed_loop_idempotent[OF res] True res ext same show ?thesis
    unfolding delayed_symbol_sub_def by auto
qed


text \<open>
  The witness: the output dictionary already has an entry for \<open>v\<close>, which is kept
  although the template for \<open>v\<close> would expand to something else; \<open>a\<close> is added; the
  second call changes nothing.
\<close>

theorem C10_delayed_symbol_sub_idempotent_witness:
  "delayed_symbol_sub Inr symbols_in_order bus2 [(''v'', v_minus_a), (''a'', Sym ''a'')]
     [(''v'', Seq [Num 7])] ''vectorized'' RList False
     = ([(''v'', Seq [Num 7]), (''a'', Seq [Sym ''Bus_a_0'', Sym ''Bus_a_1''])], None) \<and>
   delayed_symbol_sub Inr symbols_in_order bus2 [(''v'', v_minus_a), (''a'', Sym ''a'')]
     [(''v'', Seq [Num 7]), (''a'', Seq [Sym ''Bus_a_0'', Sym ''Bus_a_1''])] ''vectorized'' RList False
     = ([(''v'', Seq [Num 7]), (''a'', Seq [Sym ''Bus_a_0'', Sym ''Bus_a_1''])], None)"
proof -
  have first: "delayed_symbol_sub Inr symbols_in_order bus2 [(''v'', v_minus_a), (''a'', Sym ''a'')]
     [(''v'', Seq [Num 7])] ''vectorized'' RList False
     = ([(''v'', Seq [Num 7]), (''a'', Seq [Sym ''Bus_a_0'', Sym ''Bus_a_1''])], None)"
    by (simp add: delayed_symbol_sub_def subs_all_vectorized_def symbols_in_order_def bus2_def
        sympy_subs_def)
  from C10_delayed_symbol_sub_idempotent[of Inr symbols_in_order bus2
      "[(''v'', v_minus_a), (''a'', Sym ''a'')]" "[(''v'', Seq [Num 7])]" "''vectorized''" RList]
  show ?thesis unfolding first by simp
qed

text \<open>
  The same for \<^verbatim>\<open>delayed_symbol_sub_all\<close>, which makes the two calls with
  \<^verbatim>\<open>update=False\<close>: the expansions read the entries only, so storing the results
  does not change what a second run computes, and the second run returns the device
  of the first.
\<close>

lemma quantity_lengths_attrs:
  "attrs d' = attrs d \<Longrightarrow> quantity_lengths d' fs = quantity_lengths d fs"
  by (induction fs) (auto split: option.splits)

lemma sym_list_at_attrs:
  "attrs d' = attrs d \<Longrightarrow> py_list_entries d' = py_list_entries d \<Longrightarrow>
     sym_list_at d' i fs = sym_list_at d i fs"
  by (induction fs) (auto simp: index_out_of_range_def split: option.splits)

lemma expand_rows_attrs:
  assumes "attrs d' = attrs d" and "py_list_entries d' = py_list_entries d"
  shows "expand_rows d' fs e is = expand_rows d fs e is"
proof -
  have at: "\<And>i. sym_list_at d' i fs = sym_list_at d i fs"
    using assms by (rule sym_list_at_attrs)
  show ?thesis
  proof (induction "is")
    case Nil
    show ?case by simp
  next
    case (Cons i "is")
    show ?case unfolding expand_rows.simps at Cons.IH ..
  qed
qed

lemma subs_all_vectorized_attrs:
  assumes "attrs d' = attrs d" and "py_list_entries d' = py_list_entries d"
  shows "subs_all_vectorized ord d' e = subs_all_vectorized ord d e"
proof -
  have ql: "\<And>fs. quantity_lengths d' fs = quantity_lengths d fs"
    using assms(1) by (rule quantity_lengths_attrs)
  have er: "\<And>fs is. expand_rows d' fs e is = expand_rows d fs e is"
    using assms by (rule expand_rows_attrs)
  show ?thesis unfolding subs_all_vectorized_def ql er ..
qed

lemma sym_list_whole_attrs:
  "attrs d' = attrs d \<Longrightarrow> py_list_entries d' = py_list_entries d \<Longrightarrow>
     sym_list_whole d' fs = sym_list_whole d fs"
  by (induction fs) (auto simp: whole_entry_def split: option.splits sum.splits)

lemma subs_all_singleton_attrs:
  assumes "attrs d' = attrs d" and "py_list_entries d' = py_list_entries d"
  shows "subs_all_singleton evaluate ord d' e r = subs_all_singleton evaluate ord d e r"
proof -
  have sw: "\<And>fs. sym_list_whole d' fs = sym_list_whole d fs"
    using assms by (rule sym_list_whole_attrs)
  show ?thesis unfolding subs_all_singleton_def sw ..
qed

lemma delayed_loop_attrs:
  assumes "attrs d' = attrs d" and "py_list_entries d' = py_list_entries d"
  shows "delayed_symbol_sub_loop evaluate ord d' st ot u items out
           = delayed_symbol_sub_loop evaluate ord d st ot u items out"
proof -
  have v: "\<And>e. subs_all_vectorized ord d' e = subs_all_vectorized ord d e"
    using assms by (rule subs_all_vectorized_attrs)
  have w: "\<And>e. subs_all_singleton evaluate ord d' e ot = subs_all_singleton evaluate ord d e ot"
    using assms by (rule subs_all_singleton_attrs)
  show ?thesis
  proof (induction items arbitrary: out)
    case Nil
    show ?case by simp
  next
    case (Cons item items)
    obtain var eq where item: "item = (var, eq)" by (cases item)
    show ?case unfolding item delayed_symbol_sub_loop.simps v w Cons.IH ..
  qed
qed

lemma delayed_symbol_sub_attrs:
  assumes "attrs d' = attrs d" and "py_list_entries d' = py_list_entries d"
  shows "delayed_symbol_sub evaluate ord d' i out st ot u = delayed_symbol_sub evaluate ord d i out st ot u"
  unfolding delayed_symbol_sub_def delayed_loop_attrs[OF assms] ..

lemma delayed_symbol_sub_again:
  "delayed_symbol_sub evaluate ord dev in_dict out_dict st ot False = (out1, r) \<Longrightarrow>
     delayed_symbol_sub evaluate ord dev in_dict out1 st ot False = (out1, r)"
  by (auto simp: delayed_symbol_sub_def delayed_loop_idempotent split: if_splits)

lemma delayed_symbol_sub_all_idempotent:
  assumes "delayed_symbol_sub_all evaluate ord dev = (dev1, r)"
  shows "delayed_symbol_sub_all evaluate ord dev1 = (dev1, r)"
proof -
  obtain oe re where ext:
    "delayed_symbol_sub evaluate ord dev (gcall_ext_symbolic_singleton dev) (gcall_ext_symbolic dev)
       ''vectorized'' (RCall smp_Array) False = (oe, re)"
    by (cases "delayed_symbol_sub evaluate ord dev (gcall_ext_symbolic_singleton dev) (gcall_ext_symbolic dev)
       ''vectorized'' (RCall smp_Array) False")
  define d1 where "d1 = dev\<lparr>gcall_ext_symbolic := oe\<rparr>"
  have ext2: "delayed_symbol_sub evaluate ord d (gcall_ext_symbolic_singleton dev) oe
       ''vectorized'' (RCall smp_Array) False = (oe, re)"
    if "attrs d = attrs dev" and "py_list_entries d = py_list_entries dev" for d
    using delayed_symbol_sub_again[OF ext] delayed_symbol_sub_attrs[OF that] by simp
  show ?thesis
  proof (cases re)
    case (Some er)
    from assms have res: "dev1 = d1" "r = Some er"
      unfolding delayed_symbol_sub_all_def ext Some d1_def by simp_all
    have fields: "gcall_ext_symbolic_singleton d1 = gcall_ext_symbolic_singleton dev"
      "gcall_ext_symbolic d1 = oe" "attrs d1 = attrs dev"
      "py_list_entries d1 = py_list_entries dev" "d1\<lparr>gcall_ext_symbolic := oe\<rparr> = d1"
      by (simp_all add: d1_def)
    have "delayed_symbol_sub_all evaluate ord d1 = (d1, Some er)"
      unfolding delayed_symbol_sub_all_def fields(1,2) ext2[OF fields(3,4)] Some
      by (simp add: fields)
    with res show ?thesis by simp
  next
    case None
    obtain oi ri where int:
      "delayed_symbol_sub evaluate ord d1 (gcall_int_symbolic_singleton d1) (gcall_int_symbolic d1)
         ''vectorized'' (RCall smp_Array) False = (oi, ri)"
      by (cases "delayed_symbol_sub evaluate ord d1 (gcall_int_symbolic_singleton d1) (gcall_int_symbolic d1)
         ''vectorized'' (RCall smp_Array) False")
    define d2 where "d2 = d1\<lparr>gcall_int_symbolic := oi\<rparr>"
    have int': "delayed_symbol_sub evaluate ord (dev\<lparr>gcall_ext_symbolic := oe\<rparr>)
         (gcall_int_symbolic_singleton dev) (gcall_int_symbolic dev)
         ''vectorized'' (RCall smp_Array) False = (oi, ri)"
      using int by (simp add: d1_def)
    from assms have res: "dev1 = d2" "r = ri"
      unfolding delayed_symbol_sub_all_def ext None
      by (simp_all add: Let_def int' d1_def d2_def)
    have fields: "gcall_ext_symbolic_singleton d2 = gcall_ext_symbolic_singleton dev"
      "gcall_ext_symbolic d2 = oe" "attrs d2 = attrs dev"
      "py_list_entries d2 = py_list_entries dev" "d2\<lparr>gcall_ext_symbolic := oe\<rparr> = d2"
      "gcall_int_symbolic_singleton d2 = gcall_int_symbolic_singleton d1"
      "gcall_int_symbolic d2 = oi" "attrs d2 = attrs d1"
      "py_list_entries d2 = py_list_entries d1" "d2\<lparr>gcall_int_symbolic := oi\<rparr> = d2"
      by (simp_all add: d1_def d2_def)
    have int2: "delayed_symbol_sub evaluate ord d2 (gcall_int_symbolic_singleton d1) oi
         ''vectorized'' (RCall smp_Array) False = (oi, ri)"
      using delayed_symbol_sub_attrs[OF fields(8,9)] delayed_symbol_sub_again[OF int] by simp
    have "delayed_symbol_sub_all evaluate ord d2 = (d2, ri)"
      unfolding delayed_symbol_sub_all_def fields(1,2) ext2[OF fields(3,4)] None
      by (simp add: Let_def fields int2)
    with res show ?thesis by simp
  qed
qed

section \<open>Derived parameters are computed in one forward pass\<close>

lemma param_loop_append:
  "compute_param_int_loop sympify ord dev (xs @ ys) =
     (case compute_param_int_loop sympify ord dev xs of
        Inl er \<Rightarrow> Inl er
      | Inr dev1 \<Rightarrow> compute_param_int_loop sympify ord dev1 ys)"
  by (induction xs arbitrary: dev) (auto split: sum.splits)

lemma param_loop_other_attrs:
  "compute_param_int_loop sympify ord dev items = Inr dev' \<Longrightarrow> u \<notin> fst ` set items \<Longrightarrow>
     attrs dev' u = attrs dev u"
proof (induction items arbitrary: dev)
  case Nil
  then show ?case by simp
next
  case (Cons item items)
  obtain var eq where item: "item = (var, eq)" by (cases item)
  from Cons.prems(1) obtain t skipped ret where
    "sympify eq = Inr t" "subs_all_vectorized ord dev t = Inr (skipped, ret)"
    and rest: "compute_param_int_loop sympify ord
                 (dev\<lparr>attrs := (attrs dev)(var \<mapsto> ret),
                      py_list_entries := insert var (py_list_entries dev)\<rparr>) items = Inr dev'"
    by (auto simp: item split: sum.splits)
  from Cons.prems(2) have "u \<noteq> var" "u \<notin> fst ` set items" by (auto simp: item)
  with Cons.IH[OF rest] show ?case by simp
qed

text \<open>
  Claim C8. When the pass over \<^verbatim>\<open>_param_int_computed\<close> completes, the value stored
  for a derived parameter \<open>var\<close> is the vectorized expansion of its equation on the
  device \<open>dev1\<close> that the loop has built from the declarations before \<open>var\<close> alone. On
  \<open>dev1\<close> every parameter declared before \<open>var\<close> already has its final, freshly
  computed value, and every parameter declared after \<open>var\<close> still has the value it had
  before the pass.
\<close>

theorem C8_single_forward_pass:
  assumes decl: "param_int_computed dev = before @ (var, eq) # after"
    and keys: "distinct (map fst (param_int_computed dev))"
    and success: "compute_param_int sympify ord dev = Inr dev'"
  shows "\<exists>dev1 t skipped ret.
           compute_param_int_loop sympify ord dev before = Inr dev1 \<and>
           sympify eq = Inr t \<and>
           subs_all_vectorized ord dev1 t = Inr (skipped, ret) \<and>
           attrs dev' var = Some ret \<and>
           (\<forall>u\<in>fst ` set before. attrs dev1 u = attrs dev' u) \<and>
           (\<forall>u\<in>fst ` set after. attrs dev1 u = attrs dev u)"
proof -
  have "dict_len (param_int_computed dev) > 0"
    by (simp add: decl dict_len_def)
  with success have loop:
    "compute_param_int_loop sympify ord dev (before @ (var, eq) # after) = Inr dev'"
    by (simp add: compute_param_int_def decl)
  then obtain dev1 where d1: "compute_param_int_loop sympify ord dev before = Inr dev1"
    and tail: "compute_param_int_loop sympify ord dev1 ((var, eq) # after) = Inr dev'"
    by (auto simp: param_loop_append split: sum.splits)
  from tail obtain t skipped ret where t: "sympify eq = Inr t"
    and v: "subs_all_vectorized ord dev1 t = Inr (skipped, ret)"
    and rest: "compute_param_int_loop sympify ord
                 (dev1\<lparr>attrs := (attrs dev1)(var \<mapsto> ret),
                       py_list_entries := insert var (py_list_entries dev1)\<rparr>) after
                 = Inr dev'"
    by (auto split: sum.splits)
  from keys decl have nb: "var \<notin> fst ` set before" and na: "var \<notin> fst ` set after"
    and disj: "fst ` set before \<inter> fst ` set after = {}"
    by auto
  have final: "attrs dev' var = Some ret"
    using param_loop_other_attrs[OF rest na] by simp
  have earlier: "attrs dev1 u = attrs dev' u" if "u \<in> fst ` set before" for u
  proof -
    from that disj nb have "u \<notin> fst ` set after" "u \<noteq> var" by auto
    with param_loop_other_attrs[OF rest, of u] show ?thesis by simp
  qed
  have later: "attrs dev1 u = attrs dev u" if "u \<in> fst ` set after" for u
  proof -
    from that disj have "u \<notin> fst ` set before" by auto
    from param_loop_other_attrs[OF d1 this] show ?thesis .
  qed
  from d1 t v final earlier later show ?thesis by blast
qed

text \<open>
  The witness: \<open>h\<close> is declared after \<open>g\<close> and its equation \<^verbatim>\<open>g + x\<close> is expanded
  with the computed entries of \<open>g\<close>, not with the placeholders.
\<close>

lemma line2_computed:
  "\<exists>dev'. compute_param_int sympify_table symbols_in_order line2 = Inr dev' \<and>
     attrs dev' ''g'' = Some [App ''Mul'' [Num 2, Num 3], App ''Mul'' [Num 2, Num 5]] \<and>
     attrs dev' ''h'' = Some [App ''Add'' [App ''Mul'' [Num 2, Num 3], Num 3],
                             App ''Add'' [App ''Mul'' [Num 2, Num 5], Num 5]]"
  by (simp add: compute_param_int_def line2_def DeviceBase_init_def dict_len_def sympify_table_def
      subs_all_vectorized_def symbols_in_order_def sympy_subs_def)

theorem C8_single_forward_pass_witness:
  "param_int_computed line2 = [(''g'', ''2*x'')] @ (''h'', ''g + x'') # [] \<and>
   distinct (map fst (param_int_computed line2)) \<and>
   (\<exists>dev' dev1.
      compute_param_int sympify_table symbols_in_order line2 = Inr dev' \<and>
      compute_param_int_loop sympify_table symbols_in_order line2 [(''g'', ''2*x'')] = Inr dev1 \<and>
      attrs dev1 ''g'' = Some [App ''Mul'' [Num 2, Num 3], App ''Mul'' [Num 2, Num 5]] \<and>
      attrs dev' ''h'' = Some [App ''Add'' [App ''Mul'' [Num 2, Num 3], Num 3],
                              App ''Add'' [App ''Mul'' [Num 2, Num 5], Num 5]])"
proof -
  have decl: "param_int_computed line2 = [(''g'', ''2*x'')] @ (''h'', ''g + x'') # []"
    by (simp add: line2_def DeviceBase_init_def)
  have keys: "distinct (map fst (param_int_computed line2))"
    by (simp add: line2_def DeviceBase_init_def)
  from line2_computed obtain dev' where
    run: "compute_param_int sympify_table symbols_in_order line2 = Inr dev'"
    and g: "attrs dev' ''g'' = Some [App ''Mul'' [Num 2, Num 3], App ''Mul'' [Num 2, Num 5]]"
    and h: "attrs dev' ''h'' = Some [App ''Add'' [App ''Mul'' [Num 2, Num 3], Num 3],
                                    App ''Add'' [App ''Mul'' [Num 2, Num 5], Num 5]]"
    by blast
  from C8_single_forward_pass[OF decl keys run] obtain dev1 where
    d1: "compute_param_int_loop sympify_table symbols_in_order line2 [(''g'', ''2*x'')] = Inr dev1"
    and earlier: "\<forall>u\<in>fst ` set [(''g'', ''2*x'')]. attrs dev1 u = attrs dev' u"
    by blast
  from earlier g have "attrs dev1 ''g'' = Some [App ''Mul'' [Num 2, Num 3], App ''Mul'' [Num 2, Num 5]]"
    by simp
  with decl keys run d1 h show ?thesis by blast
qed


section \<open>Importing the variables of another device by class name\<close>












text \<open>
  \<^verbatim>\<open>create_n_default_elements\<close> sets up the default numbering that the theorem speaks
  of: the \<open>i\<close>-th identifier is a key of \<^verbatim>\<open>_int\<close> and its row is \<open>i\<close>.
\<close>

lemma map_of_default_rows:
  "i < n \<Longrightarrow> map_of (map (\<lambda>i. (IntKey (int i), i)) [0..<n]) (IntKey (int i)) = Some i"
proof (induction n)
  case 0
  then show ?case by simp
next
  case (Suc n)
  show ?case
  proof (cases "i < n")
    case True
    with Suc.IH show ?thesis by (simp add: map_of_append)
  next
    case False
    with Suc.prems have i: "i = n" by simp
    have "map_of (map (\<lambda>i. (IntKey (int i), i)) [0..<n]) (IntKey (int n)) = None"
      by (auto simp: map_of_eq_None_iff)
    with i show ?thesis by (simp add: map_add_def)
  qed
qed

lemma default_elements_rows:
  assumes "create_n_default_elements dev n = Inr d"
  shows "length (idx d) = nat n \<and>
         (\<forall>i<length (idx d). idx d ! i \<in> fst ` set (int_rows d) \<and> row_of d (idx d ! i) = i)"
proof -
  from assms have n: "0 \<le> n"
    and d: "d = dev\<lparr>idx := map (\<lambda>i. IntKey (int i)) [0..<nat n],
                     int_rows := map (\<lambda>i. (IntKey (int i), i)) [0..<nat n]\<rparr>"
    by (auto simp: create_n_default_elements_def split: if_splits)
  have "row_of d (idx d ! i) = i \<and> idx d ! i \<in> fst ` set (int_rows d)" if "i < nat n" for i
    using that map_of_default_rows[OF that] by (force simp: d row_of_def)
  then show ?thesis by (simp add: d)
qed

end
